theory Spec2Isabelle
  imports Main
begin

section \<open>Data model of scale-up.ts\<close>

text \<open>
  The triggering message (interface \<open>ActionRequestMessage\<close>). The field \<open>id\<close> is named
  \<open>id'\<close> here, since \<open>id\<close> is the identity function of HOL. JavaScript numbers that hold
  identifiers are integers.
\<close>

record ActionRequestMessage =
  id' :: int
  eventType :: string
  repositoryName :: string
  repositoryOwner :: string
  installationId :: int

text \<open>One entry of the table \<open>runnerTypes\<close> (type \<open>RunnerType\<close> of \<open>./runners\<close>).\<close>

record RunnerType =
  instance_type :: string
  os :: string
  ami_filter :: string
  max_available :: nat
  min_available :: nat
  disk_size :: nat
  runnerTypeName :: string

text \<open>
  A tracked runner as \<open>listRunners\<close> returns it. The only field that \<open>scaleUp\<close> reads is
  \<open>x.runnerType\<close>; it is called \<open>runnerType_field\<close> here because \<open>runnerType\<close> is the loop
  variable of \<open>scaleUp\<close> and a parameter of \<open>allRunnersBusy\<close>. A record without the field
  has \<open>None\<close> (\<open>undefined\<close>, which \<open>===\<close> never equates with a string).
\<close>

record RunnerInfo =
  runnerType_field :: "string option"

text \<open>
  A runner as the platform reports it to \<open>listGithubRunners\<close>: \<open>labels\<close> holds the
  \<open>name\<close> of each label object.
\<close>

record GhRunner =
  labels :: "string list"
  status :: string
  busy :: bool

text \<open>The variables of \<open>process.env\<close> that \<open>scaleUp\<close> reads; \<open>None\<close> is \<open>undefined\<close>.\<close>

record process_env =
  ENABLE_ORGANIZATION_RUNNERS :: "string option"
  RUNNER_EXTRA_LABELS :: "string option"
  RUNNER_GROUP_NAME :: "string option"
  ENVIRONMENT :: "string option"
  GHES_URL :: "string option"

text \<open>A thrown value: \<open>Error(message)\<close>, also what a rejected collaborator call carries.\<close>

datatype error = Error string

text \<open>An Octokit client object is opaque to \<open>scaleUp\<close>: a handle chosen by its factory.\<close>

type_synonym client = nat

section \<open>Outbound calls and their replies\<close>

text \<open>
  Every call that leaves \<open>scale-up.ts\<close>, with its arguments in the order of the source.
  \<^item> \<open>CreateGithubAuth installationId authType ghesApiUrl\<close>
  \<^item> \<open>CreateOctoClient token ghesApiUrl\<close>
  \<^item> \<open>GetOrgInstallation client org\<close>, \<open>GetRepoInstallation client owner repo\<close>
    (\<open>apps.getOrgInstallation\<close>, \<open>apps.getRepoInstallation\<close>)
  \<^item> \<open>ChecksGet client check_run_id owner repo\<close> (\<open>checks.get\<close>)
  \<^item> \<open>ListRunners environment repoName\<close>
  \<^item> \<open>CreateRegistrationTokenForOrg client org\<close>,
    \<open>CreateRegistrationTokenForRepo client owner repo\<close>
  \<^item> \<open>CreateRunner environment runnerConfig orgName repoName runnerType\<close>
  \<^item> \<open>CreateGitHubClientForRunner org repo enableOrgLevel\<close>
  \<^item> \<open>ListGithubRunners client org repo enableOrgLevel\<close>
  \<^item> \<open>ConsoleInfo line\<close> (\<open>console.info\<close>)
\<close>

datatype call =
    CreateGithubAuth "int option" string string
  | CreateOctoClient string string
  | GetOrgInstallation client string
  | GetRepoInstallation client string string
  | ChecksGet client int string string
  | ListRunners "string option" "string option"
  | CreateRegistrationTokenForOrg client string
  | CreateRegistrationTokenForRepo client string string
  | CreateRunner "string option" string "string option" "string option" RunnerType
  | CreateGitHubClientForRunner string string bool
  | ListGithubRunners client string string bool
  | ConsoleInfo string

text \<open>What came back: the part of the response that the source reads, or the rejection.\<close>

datatype reply =
    Rejected error
  | Token string
  | Client client
  | InstallationId int
  | CheckRunStatus string
  | Runners "RunnerInfo list"
  | GhRunners "GhRunner list"
  | Done

type_synonym event = "call \<times> reply"

text \<open>
  The collaborators of \<open>./runners\<close>, \<open>./gh-auth\<close>, Octokit and \<open>yn\<close> are not part of
  \<open>scale-up.ts\<close>; they are parameters. Each answers from the calls and replies so far (so
  two calls with the same arguments may be answered differently) and its arguments, with a
  value or a rejection.
\<close>

record collaborators =
  ext_yn :: "string option \<Rightarrow> bool \<Rightarrow> bool"
  ext_createGithubAuth :: "event list \<Rightarrow> int option \<Rightarrow> string \<Rightarrow> string \<Rightarrow> error + string"
  ext_createOctoClient :: "event list \<Rightarrow> string \<Rightarrow> string \<Rightarrow> error + client"
  ext_getOrgInstallation :: "event list \<Rightarrow> client \<Rightarrow> string \<Rightarrow> error + int"
  ext_getRepoInstallation :: "event list \<Rightarrow> client \<Rightarrow> string \<Rightarrow> string \<Rightarrow> error + int"
  ext_checks_get :: "event list \<Rightarrow> client \<Rightarrow> int \<Rightarrow> string \<Rightarrow> string \<Rightarrow> error + string"
  ext_listRunners :: "event list \<Rightarrow> string option \<Rightarrow> string option \<Rightarrow> error + RunnerInfo list"
  ext_createRegistrationTokenForOrg :: "event list \<Rightarrow> client \<Rightarrow> string \<Rightarrow> error + string"
  ext_createRegistrationTokenForRepo ::
    "event list \<Rightarrow> client \<Rightarrow> string \<Rightarrow> string \<Rightarrow> error + string"
  ext_createRunner ::
    "event list \<Rightarrow> string option \<Rightarrow> string \<Rightarrow> string option \<Rightarrow> string option \<Rightarrow> RunnerType
      \<Rightarrow> error + unit"
  ext_createGitHubClientForRunner :: "event list \<Rightarrow> string \<Rightarrow> string \<Rightarrow> bool \<Rightarrow> error + client"
  ext_listGithubRunners ::
    "event list \<Rightarrow> client \<Rightarrow> string \<Rightarrow> string \<Rightarrow> bool \<Rightarrow> error + GhRunner list"

section \<open>Asynchronous control flow\<close>

text \<open>
  A promise that nobody awaits: the calls its body makes and how it settles. These calls
  are not ordered against the calls of the function that dropped the promise.
\<close>

datatype promise = Promise "event list" "error + bool"

text \<open>
  The run of one invocation: \<open>calls\<close> are the outbound calls of the awaited control flow,
  in program order, each with its reply; \<open>unawaited\<close> are the promises that were created
  and never awaited, each with the \<open>runnerType\<close> argument of its \<open>allRunnersBusy\<close> call.
\<close>

record run =
  calls :: "event list"
  unawaited :: "(string \<times> promise) list"

type_synonym 'a io = "run \<Rightarrow> run \<times> (error + 'a)"

definition start :: run where
  "start = \<lparr>calls = [], unawaited = []\<rparr>"

definition resolve :: "'a \<Rightarrow> 'a io" where
  "resolve x s = (s, Inr x)"

definition throw :: "error \<Rightarrow> 'a io" where
  "throw e s = (s, Inl e)"

text \<open>\<open>const x = await m; k x\<close>: a rejection of \<open>m\<close> leaves the function at once.\<close>

definition await :: "'a io \<Rightarrow> ('a \<Rightarrow> 'b io) \<Rightarrow> 'b io" where
  "await m k s = (case m s of (s', Inl e) \<Rightarrow> (s', Inl e) | (s', Inr x) \<Rightarrow> k x s')"

text \<open>One outbound call: ask the collaborator, record the call with its reply.\<close>

definition invoke :: "call \<Rightarrow> (event list \<Rightarrow> error + 'a) \<Rightarrow> ('a \<Rightarrow> reply) \<Rightarrow> 'a io" where
  "invoke c answer shown s =
     (let r = answer (calls s)
      in (s\<lparr>calls := calls s @ [(c, case r of Inl e \<Rightarrow> Rejected e | Inr x \<Rightarrow> shown x)]\<rparr>, r))"

definition createGithubAuth :: "collaborators \<Rightarrow> int option \<Rightarrow> string \<Rightarrow> string \<Rightarrow> string io" where
  "createGithubAuth w i authType url =
     invoke (CreateGithubAuth i authType url) (\<lambda>h. ext_createGithubAuth w h i authType url) Token"

definition createOctoClient :: "collaborators \<Rightarrow> string \<Rightarrow> string \<Rightarrow> client io" where
  "createOctoClient w token url =
     invoke (CreateOctoClient token url) (\<lambda>h. ext_createOctoClient w h token url) Client"

definition getOrgInstallation :: "collaborators \<Rightarrow> client \<Rightarrow> string \<Rightarrow> int io" where
  "getOrgInstallation w c org =
     invoke (GetOrgInstallation c org) (\<lambda>h. ext_getOrgInstallation w h c org) InstallationId"

definition getRepoInstallation :: "collaborators \<Rightarrow> client \<Rightarrow> string \<Rightarrow> string \<Rightarrow> int io" where
  "getRepoInstallation w c owner repo =
     invoke (GetRepoInstallation c owner repo) (\<lambda>h. ext_getRepoInstallation w h c owner repo)
       InstallationId"

definition checks_get :: "collaborators \<Rightarrow> client \<Rightarrow> int \<Rightarrow> string \<Rightarrow> string \<Rightarrow> string io" where
  "checks_get w c check_run_id owner repo =
     invoke (ChecksGet c check_run_id owner repo) (\<lambda>h. ext_checks_get w h c check_run_id owner repo)
       CheckRunStatus"

definition listRunners ::
  "collaborators \<Rightarrow> string option \<Rightarrow> string option \<Rightarrow> RunnerInfo list io" where
  "listRunners w environment repoName =
     invoke (ListRunners environment repoName) (\<lambda>h. ext_listRunners w h environment repoName)
       Runners"

definition createRegistrationTokenForOrg :: "collaborators \<Rightarrow> client \<Rightarrow> string \<Rightarrow> string io" where
  "createRegistrationTokenForOrg w c org =
     invoke (CreateRegistrationTokenForOrg c org)
       (\<lambda>h. ext_createRegistrationTokenForOrg w h c org) Token"

definition createRegistrationTokenForRepo ::
  "collaborators \<Rightarrow> client \<Rightarrow> string \<Rightarrow> string \<Rightarrow> string io" where
  "createRegistrationTokenForRepo w c owner repo =
     invoke (CreateRegistrationTokenForRepo c owner repo)
       (\<lambda>h. ext_createRegistrationTokenForRepo w h c owner repo) Token"

definition createRunner ::
  "collaborators \<Rightarrow> string option \<Rightarrow> string \<Rightarrow> string option \<Rightarrow> string option \<Rightarrow> RunnerType
    \<Rightarrow> unit io" where
  "createRunner w environment runnerConfig orgName repoName rt =
     invoke (CreateRunner environment runnerConfig orgName repoName rt)
       (\<lambda>h. ext_createRunner w h environment runnerConfig orgName repoName rt) (\<lambda>_. Done)"

definition createGitHubClientForRunner ::
  "collaborators \<Rightarrow> string \<Rightarrow> string \<Rightarrow> bool \<Rightarrow> client io" where
  "createGitHubClientForRunner w org repo enableOrgLevel =
     invoke (CreateGitHubClientForRunner org repo enableOrgLevel)
       (\<lambda>h. ext_createGitHubClientForRunner w h org repo enableOrgLevel) Client"

definition listGithubRunners ::
  "collaborators \<Rightarrow> client \<Rightarrow> string \<Rightarrow> string \<Rightarrow> bool \<Rightarrow> GhRunner list io" where
  "listGithubRunners w c org repo enableOrgLevel =
     invoke (ListGithubRunners c org repo enableOrgLevel)
       (\<lambda>h. ext_listGithubRunners w h c org repo enableOrgLevel) GhRunners"

definition console_info :: "string \<Rightarrow> unit io" where
  "console_info line = invoke (ConsoleInfo line) (\<lambda>h. Inr ()) (\<lambda>_. Done)"

text \<open>
  Calling an \<open>async\<close> function without \<open>await\<close>: the body runs on its own (it sees the
  calls made so far), the caller gets the promise and goes on; a rejection stays inside
  the promise. When the body's calls happen, and what the runtime does with a rejection
  that nobody handles, is not part of this model.
\<close>

definition run_detached :: "bool io \<Rightarrow> event list \<Rightarrow> promise" where
  "run_detached body h =
     (case body \<lparr>calls = h, unawaited = []\<rparr> of
        (s', r) \<Rightarrow> Promise (drop (length h) (calls s')) r)"

definition unawaited_call :: "string \<Rightarrow> bool io \<Rightarrow> promise io" where
  "unawaited_call tag body s =
     (let p = run_detached body (calls s)
      in (s\<lparr>unawaited := unawaited s @ [(tag, p)]\<rparr>, Inr p))"

text \<open>
  A promise used as the condition of an \<open>if\<close>: \<open>ToBoolean\<close> of an object is \<open>true\<close>,
  whatever the promise settles to.
\<close>

definition truthy_promise :: "promise \<Rightarrow> bool" where
  "truthy_promise p = True"

text \<open>A string of \<open>process.env\<close> used as a condition: defined and not empty.\<close>

definition truthy :: "string option \<Rightarrow> bool" where
  "truthy v = (case v of None \<Rightarrow> False | Some s \<Rightarrow> s \<noteq> [])"

text \<open>A length inside a template literal: its decimal digits.\<close>

function show_nat :: "nat \<Rightarrow> string" where
  "show_nat n =
     (if n < 10 then [''0123456789'' ! n]
      else show_nat (n div 10) @ [''0123456789'' ! (n mod 10)])"
  by pat_completeness auto
termination
  by (relation "measure id") auto

declare show_nat.simps [simp del]

section \<open>allRunnersBusy\<close>

text \<open>Line 155: the live runners that carry the label and are not offline.\<close>

definition runnersWithLabel :: "string \<Rightarrow> GhRunner list \<Rightarrow> GhRunner list" where
  "runnersWithLabel runnerType ghRunners =
     filter (\<lambda>x. list_ex (\<lambda>y. y = runnerType) (labels x) \<and> status x \<noteq> ''offline'') ghRunners"

text \<open>
  Lines 148 to 161. The two factories only hand out the functions that are called next.
  \<open>busyCount\<close> counts the busy runners of the whole list, as the source does.
\<close>

definition allRunnersBusy :: "collaborators \<Rightarrow> string \<Rightarrow> string \<Rightarrow> string \<Rightarrow> bool \<Rightarrow> bool io" where
  "allRunnersBusy w runnerType org repo enableOrgLevel =
     await (createGitHubClientForRunner w org repo enableOrgLevel) (\<lambda>githubAppClient.
     await (listGithubRunners w githubAppClient org repo enableOrgLevel) (\<lambda>ghRunners.
       let busyCount = length (filter busy ghRunners)
       in await
            (console_info
               (''Found '' @ show_nat (length (runnersWithLabel runnerType ghRunners))
                  @ '' matching GitHub runners, '' @ show_nat busyCount @ '' are busy''))
            (\<lambda>_. resolve (list_all busy (runnersWithLabel runnerType ghRunners)))))"

section \<open>scaleUp\<close>

text \<open>The table \<open>runnerTypes\<close>, in the order \<open>for ... in\<close> enumerates its keys.\<close>

definition runnerTypes :: "(string \<times> RunnerType) list" where
  "runnerTypes =
    [(''linux.2xlarge'',
        \<lparr>instance_type = ''c5.2xlarge'', os = ''linux'',
         ami_filter = ''amzn2-ami-hvm-2.0*x86_64-ebs'',
         max_available = 200, min_available = 10, disk_size = 100,
         runnerTypeName = ''linux.2xlarge''\<rparr>),
     (''linux.8xlarge.nvidia.gpu'',
        \<lparr>instance_type = ''g3.8xlarge'', os = ''linux'',
         ami_filter = ''amzn2-ami-hvm-2.0*x86_64-ebs'',
         max_available = 50, min_available = 1, disk_size = 100,
         runnerTypeName = ''linux.8xlarge.nvidia.gpu''\<rparr>),
     (''win.2xlarge'',
        \<lparr>instance_type = ''c5.2xlarge'', os = ''windows'',
         ami_filter = ''Windows_Server-2019-English-Core*'',
         max_available = 50, min_available = 10, disk_size = 100,
         runnerTypeName = ''win.2xlarge''\<rparr>),
     (''win.8xlarge.nvidia.gpu'',
        \<lparr>instance_type = ''g3.8xlarge'', os = ''windows'',
         ami_filter = ''Windows_Server-2019-English-Core*'',
         max_available = 30, min_available = 10, disk_size = 100,
         runnerTypeName = ''win.8xlarge.nvidia.gpu''\<rparr>)]"

text \<open>Lines 127 to 135: the configuration string handed to \<open>createRunner\<close>.\<close>

definition labelsArgument :: "string \<Rightarrow> string option \<Rightarrow> string" where
  "labelsArgument runnerType runnerExtraLabels =
     (case runnerExtraLabels of
        Some extra \<Rightarrow> ''--labels '' @ runnerType @ '','' @ extra
      | None \<Rightarrow> ''--labels '' @ runnerType)"

definition runnerGroupArgument :: "string option \<Rightarrow> string" where
  "runnerGroupArgument runnerGroup =
     (case runnerGroup of Some g \<Rightarrow> '' --runnergroup '' @ g | None \<Rightarrow> '''')"

text \<open>Lines 25 to 28: \<open>if (ghesBaseUrl)\<close> holds for a defined, non-empty string.\<close>

definition ghesApiUrl :: "string option \<Rightarrow> string" where
  "ghesApiUrl ghesBaseUrl =
     (if truthy ghesBaseUrl
      then (case ghesBaseUrl of Some u \<Rightarrow> u @ ''/api/v3'' | None \<Rightarrow> '''')
      else '''')"

definition configBaseUrl :: "string option \<Rightarrow> string" where
  "configBaseUrl ghesBaseUrl =
     (if truthy ghesBaseUrl
      then (case ghesBaseUrl of Some u \<Rightarrow> u | None \<Rightarrow> ''https://github.com'')
      else ''https://github.com'')"

definition runnerConfig ::
  "bool \<Rightarrow> string option \<Rightarrow> string \<Rightarrow> string \<Rightarrow> string \<Rightarrow> string \<Rightarrow> string option \<Rightarrow> string option
    \<Rightarrow> string" where
  "runnerConfig enableOrgLevel ghesBaseUrl owner repo token runnerType runnerExtraLabels runnerGroup =
     (if enableOrgLevel
      then ''--url '' @ configBaseUrl ghesBaseUrl @ ''/'' @ owner @ '' --token '' @ token @ '' ''
             @ labelsArgument runnerType runnerExtraLabels @ runnerGroupArgument runnerGroup
      else (''--url '' @ configBaseUrl ghesBaseUrl @ ''/'' @ owner @ ''/'' @ repo @ '' '')
             @ (''--token '' @ token @ '' '' @ labelsArgument runnerType runnerExtraLabels))"

text \<open>Line 113: the tracked runners of one runner type.\<close>

definition currentRunnerCount :: "RunnerInfo list \<Rightarrow> string \<Rightarrow> nat" where
  "currentRunnerCount currentRunners runnerType =
     length (filter (\<lambda>x. runnerType_field x = Some runnerType) currentRunners)"

text \<open>
  The body of the loop over \<open>runnerTypes\<close> (lines 113 to 143), for the key \<open>runnerType\<close>
  and its entry \<open>runnerTypes[runnerType]\<close>. The constants that \<open>scaleUp\<close> binds before the
  loop are written out where the body uses them: \<open>environment\<close>, \<open>ghesBaseUrl\<close>,
  \<open>runnerExtraLabels\<close> and \<open>runnerGroup\<close> are the variables of \<open>process.env\<close>, \<open>orgName\<close> and
  \<open>repoName\<close> the two conditionals of lines 57 and 58. The condition of line 117 is the
  promise that \<open>allRunnersBusy\<close> returns: the call is not awaited.
\<close>

definition scaleUp_runnerType ::
  "collaborators \<Rightarrow> process_env \<Rightarrow> ActionRequestMessage \<Rightarrow> bool \<Rightarrow> client \<Rightarrow> RunnerInfo list
    \<Rightarrow> string \<times> RunnerType \<Rightarrow> unit io" where
  "scaleUp_runnerType w env payload enableOrgLevel githubInstallationClient currentRunners entry =
     (case entry of (runnerType, rt) \<Rightarrow>
       if currentRunnerCount currentRunners runnerType < max_available rt then
         await (unawaited_call runnerType
                  (allRunnersBusy w runnerType (repositoryOwner payload) (repositoryName payload)
                     enableOrgLevel))
           (\<lambda>allBusy.
             if truthy_promise allBusy then
               await (if enableOrgLevel
                      then createRegistrationTokenForOrg w githubInstallationClient
                             (repositoryOwner payload)
                      else createRegistrationTokenForRepo w githubInstallationClient
                             (repositoryOwner payload) (repositoryName payload))
                 (\<lambda>token.
                   createRunner w (ENVIRONMENT env)
                     (runnerConfig enableOrgLevel (GHES_URL env) (repositoryOwner payload)
                        (repositoryName payload) token runnerType (RUNNER_EXTRA_LABELS env)
                        (RUNNER_GROUP_NAME env))
                     (if enableOrgLevel then Some (repositoryOwner payload) else None)
                     (if enableOrgLevel then None
                      else Some (repositoryOwner payload @ ''/'' @ repositoryName payload))
                     rt)
             else console_info ''No runner will be created, maximum number of runners reached.'')
       else resolve ())"

text \<open>\<open>for (const runnerType in runnerTypes)\<close>: a rejection ends the loop.\<close>

fun for_in :: "('a \<Rightarrow> unit io) \<Rightarrow> 'a list \<Rightarrow> unit io" where
  "for_in body [] s = (s, Inr ())"
| "for_in body (x # xs) s =
     (case body x s of (s', Inl e) \<Rightarrow> (s', Inl e) | (s', Inr _) \<Rightarrow> for_in body xs s')"

definition scaleUp :: "collaborators \<Rightarrow> process_env \<Rightarrow> string \<Rightarrow> ActionRequestMessage \<Rightarrow> unit io" where
  "scaleUp w env eventSource payload =
     (if eventSource \<noteq> ''aws:sqs'' then throw (Error ''Cannot handle non-SQS events!'')
      else
        let enableOrgLevel = ext_yn w (ENABLE_ORGANIZATION_RUNNERS env) True;
            environment = ENVIRONMENT env;
            ghesBaseUrl = GHES_URL env;
            ghesApiUrl' = ghesApiUrl ghesBaseUrl
        in
        await (if installationId payload = 0 then
                 await (createGithubAuth w None ''app'' ghesApiUrl') (\<lambda>ghAuth.
                 await (createOctoClient w ghAuth ghesApiUrl') (\<lambda>githubClient.
                   if enableOrgLevel
                   then getOrgInstallation w githubClient (repositoryOwner payload)
                   else getRepoInstallation w githubClient (repositoryOwner payload)
                          (repositoryName payload)))
               else resolve (installationId payload))
          (\<lambda>installationId'.
        await (createGithubAuth w (Some installationId') ''installation'' ghesApiUrl') (\<lambda>ghAuth.
        await (createOctoClient w ghAuth ghesApiUrl') (\<lambda>githubInstallationClient.
        await (checks_get w githubInstallationClient (id' payload) (repositoryOwner payload)
                 (repositoryName payload)) (\<lambda>checkRun_status.
          let repoName = (if enableOrgLevel then None
                          else Some (repositoryOwner payload @ ''/'' @ repositoryName payload))
          in
          if checkRun_status = ''queued'' then
            await (listRunners w environment repoName) (\<lambda>currentRunners.
            await (console_info
                     ((if enableOrgLevel then ''Organization '' @ repositoryOwner payload
                       else ''Repo '' @ repositoryOwner payload @ ''/'' @ repositoryName payload)
                        @ '' has '' @ show_nat (length currentRunners) @ '' runners'')) (\<lambda>_.
              for_in
                (scaleUp_runnerType w env payload enableOrgLevel githubInstallationClient
                   currentRunners)
                runnerTypes))
          else resolve ())))))"

section \<open>Reading a run\<close>

text \<open>Kinds of outbound calls, as the properties below name them.\<close>

fun resolver_call :: "call \<Rightarrow> bool" where
  "resolver_call (CreateGithubAuth _ _ _) = True"
| "resolver_call (CreateOctoClient _ _) = True"
| "resolver_call (GetOrgInstallation _ _) = True"
| "resolver_call (GetRepoInstallation _ _ _) = True"
| "resolver_call _ = False"

fun is_lookup :: "call \<Rightarrow> bool" where
  "is_lookup (GetOrgInstallation _ _) = True"
| "is_lookup (GetRepoInstallation _ _ _) = True"
| "is_lookup _ = False"

fun is_checks_get :: "call \<Rightarrow> bool" where
  "is_checks_get (ChecksGet _ _ _ _) = True"
| "is_checks_get _ = False"

fun is_token_call :: "call \<Rightarrow> bool" where
  "is_token_call (CreateRegistrationTokenForOrg _ _) = True"
| "is_token_call (CreateRegistrationTokenForRepo _ _ _) = True"
| "is_token_call _ = False"

fun is_createRunner :: "call \<Rightarrow> bool" where
  "is_createRunner (CreateRunner _ _ _ _ _) = True"
| "is_createRunner _ = False"

text \<open>A \<open>createRunner\<close> call is for the runner type whose table entry it passes.\<close>

fun creates :: "string \<Rightarrow> call \<Rightarrow> bool" where
  "creates name (CreateRunner _ _ _ _ rt) = (runnerTypeName rt = name)"
| "creates name _ = False"

text \<open>Listing the fleet (tracked or live) and provisioning.\<close>

fun fleet_or_provisioning :: "call \<Rightarrow> bool" where
  "fleet_or_provisioning (ListRunners _ _) = True"
| "fleet_or_provisioning (CreateGitHubClientForRunner _ _ _) = True"
| "fleet_or_provisioning (ListGithubRunners _ _ _ _) = True"
| "fleet_or_provisioning (CreateRegistrationTokenForOrg _ _) = True"
| "fleet_or_provisioning (CreateRegistrationTokenForRepo _ _ _) = True"
| "fleet_or_provisioning (CreateRunner _ _ _ _ _) = True"
| "fleet_or_provisioning _ = False"

definition calls_creating :: "string \<Rightarrow> event list \<Rightarrow> event list" where
  "calls_creating name evs = filter (\<lambda>ev. creates name (fst ev)) evs"

definition token_calls :: "event list \<Rightarrow> event list" where
  "token_calls evs = filter (\<lambda>ev. is_token_call (fst ev)) evs"

definition create_calls :: "event list \<Rightarrow> event list" where
  "create_calls evs = filter (\<lambda>ev. is_createRunner (fst ev)) evs"

text \<open>The unawaited \<open>allRunnersBusy\<close> promises of one runner type.\<close>

definition checks_for :: "string \<Rightarrow> (string \<times> promise) list \<Rightarrow> (string \<times> promise) list" where
  "checks_for name ps = filter (\<lambda>p. fst p = name) ps"

text \<open>Line 115, for an entry of the table.\<close>

definition below_ceiling :: "RunnerInfo list \<Rightarrow> string \<times> RunnerType \<Rightarrow> bool" where
  "below_ceiling currentRunners entry =
     (currentRunnerCount currentRunners (fst entry) < max_available (snd entry))"

text \<open>The three calls whose arguments depend on the scope, as \<open>scaleUp\<close> makes them.\<close>

definition lookupCall :: "bool \<Rightarrow> client \<Rightarrow> ActionRequestMessage \<Rightarrow> call" where
  "lookupCall enableOrgLevel c payload =
     (if enableOrgLevel then GetOrgInstallation c (repositoryOwner payload)
      else GetRepoInstallation c (repositoryOwner payload) (repositoryName payload))"

definition tokenCall :: "bool \<Rightarrow> client \<Rightarrow> ActionRequestMessage \<Rightarrow> call" where
  "tokenCall enableOrgLevel c payload =
     (if enableOrgLevel then CreateRegistrationTokenForOrg c (repositoryOwner payload)
      else CreateRegistrationTokenForRepo c (repositoryOwner payload) (repositoryName payload))"

definition createCall ::
  "process_env \<Rightarrow> bool \<Rightarrow> ActionRequestMessage \<Rightarrow> string \<Rightarrow> string \<Rightarrow> RunnerType \<Rightarrow> call" where
  "createCall env enableOrgLevel payload token runnerType rt =
     CreateRunner (ENVIRONMENT env)
       (runnerConfig enableOrgLevel (GHES_URL env) (repositoryOwner payload)
          (repositoryName payload) token runnerType (RUNNER_EXTRA_LABELS env)
          (RUNNER_GROUP_NAME env))
       (if enableOrgLevel then Some (repositoryOwner payload) else None)
       (if enableOrgLevel then None
        else Some (repositoryOwner payload @ ''/'' @ repositoryName payload))
       rt"

text \<open>The promise that the loop body drops for a runner type, started after the calls of \<open>s\<close>.\<close>

definition admission ::
  "collaborators \<Rightarrow> string \<Rightarrow> ActionRequestMessage \<Rightarrow> bool \<Rightarrow> run \<Rightarrow> promise" where
  "admission w runnerType payload enableOrgLevel s =
     run_detached
       (allRunnersBusy w runnerType (repositoryOwner payload) (repositoryName payload)
          enableOrgLevel)
       (calls s)"

subsection \<open>Auxiliary notions of the proofs\<close>

text \<open>What the loop adds to the calls: token and create calls, none answered with a status
  or a list of runners.\<close>

definition provisioning :: "event \<Rightarrow> bool" where
  "provisioning ev =
     ((is_token_call (fst ev) \<or> is_createRunner (fst ev)) \<and>
      (case snd ev of CheckRunStatus _ \<Rightarrow> False | Runners _ \<Rightarrow> False | _ \<Rightarrow> True))"

text \<open>A table whose keys are distinct and name their entries, as \<open>runnerTypes\<close> is.\<close>

definition well_keyed :: "(string \<times> RunnerType) list \<Rightarrow> bool" where
  "well_keyed xs =
     (distinct (map fst xs) \<and> list_all (\<lambda>entry. runnerTypeName (snd entry) = fst entry) xs)"

text \<open>
  \<open>scaleUp\<close> cut in two for the proofs: lines 18 to 70 (\<open>scaleUp_front\<close>, which says whether
  the loop is entered, with which client and which tracked runners) and the loop
  (\<open>scaleUp_loop\<close>). Lemma \<open>scaleUp_front_loop\<close> shows that \<open>scaleUp\<close> is the one followed
  by the other; no property is stated about these two.
\<close>

definition scaleUp_front ::
  "collaborators \<Rightarrow> process_env \<Rightarrow> string \<Rightarrow> ActionRequestMessage
    \<Rightarrow> (client \<times> RunnerInfo list) option io" where
  "scaleUp_front w env eventSource payload =
     (if eventSource \<noteq> ''aws:sqs'' then throw (Error ''Cannot handle non-SQS events!'')
      else
        let enableOrgLevel = ext_yn w (ENABLE_ORGANIZATION_RUNNERS env) True;
            environment = ENVIRONMENT env;
            ghesBaseUrl = GHES_URL env;
            ghesApiUrl' = ghesApiUrl ghesBaseUrl
        in
        await (if installationId payload = 0 then
                 await (createGithubAuth w None ''app'' ghesApiUrl') (\<lambda>ghAuth.
                 await (createOctoClient w ghAuth ghesApiUrl') (\<lambda>githubClient.
                   if enableOrgLevel
                   then getOrgInstallation w githubClient (repositoryOwner payload)
                   else getRepoInstallation w githubClient (repositoryOwner payload)
                          (repositoryName payload)))
               else resolve (installationId payload))
          (\<lambda>installationId'.
        await (createGithubAuth w (Some installationId') ''installation'' ghesApiUrl') (\<lambda>ghAuth.
        await (createOctoClient w ghAuth ghesApiUrl') (\<lambda>githubInstallationClient.
        await (checks_get w githubInstallationClient (id' payload) (repositoryOwner payload)
                 (repositoryName payload)) (\<lambda>checkRun_status.
          let repoName = (if enableOrgLevel then None
                          else Some (repositoryOwner payload @ ''/'' @ repositoryName payload))
          in
          if checkRun_status = ''queued'' then
            await (listRunners w environment repoName) (\<lambda>currentRunners.
            await (console_info
                     ((if enableOrgLevel then ''Organization '' @ repositoryOwner payload
                       else ''Repo '' @ repositoryOwner payload @ ''/'' @ repositoryName payload)
                        @ '' has '' @ show_nat (length currentRunners) @ '' runners'')) (\<lambda>_.
              resolve (Some (githubInstallationClient, currentRunners))))
          else resolve None)))))"

definition scaleUp_loop ::
  "collaborators \<Rightarrow> process_env \<Rightarrow> ActionRequestMessage \<Rightarrow> (client \<times> RunnerInfo list) option
    \<Rightarrow> unit io" where
  "scaleUp_loop w env payload entered =
     (case entered of
        None \<Rightarrow> resolve ()
      | Some (c, rs) \<Rightarrow>
          for_in
            (scaleUp_runnerType w env payload (ext_yn w (ENABLE_ORGANIZATION_RUNNERS env) True)
               c rs)
            runnerTypes)"

section \<open>Reading a configuration string back\<close>

text \<open>
  \<open>scale-up.ts\<close> only composes the configuration string; nothing in it reads one. The
  reader below is the reference against which the round trip is stated: it splits the
  string at spaces, takes the value of a trailing \<open>--runnergroup\<close> option when there is
  one and the value of the \<open>--labels\<close> option before it, and splits the label list at its
  first comma into the runner type and the extra labels.
\<close>

fun split_on :: "char \<Rightarrow> string \<Rightarrow> string list" where
  "split_on c [] = [[]]"
| "split_on c (x # xs) =
     (if x = c then [] # split_on c xs
      else (case split_on c xs of [] \<Rightarrow> [[x]] | word # ws \<Rightarrow> (x # word) # ws))"

definition read_labels :: "string \<Rightarrow> string \<times> string option" where
  "read_labels l =
     (takeWhile (\<lambda>x. x \<noteq> CHR '','') l,
      if CHR '','' \<in> set l then Some (tl (dropWhile (\<lambda>x. x \<noteq> CHR '','') l)) else None)"

definition parse_runnerConfig ::
  "string \<Rightarrow> (string \<times> string option \<times> string option) option" where
  "parse_runnerConfig config =
     (case rev (split_on CHR '' '' config) of
        g # opt # rest \<Rightarrow>
          if opt = ''--labels'' then Some (fst (read_labels g), snd (read_labels g), None)
          else if opt = ''--runnergroup'' then
            (case rest of
               l # k # _ \<Rightarrow>
                 if k = ''--labels''
                 then Some (fst (read_labels l), snd (read_labels l), Some g)
                 else None
             | _ \<Rightarrow> None)
          else None
      | _ \<Rightarrow> None)"

text \<open>The label list that \<open>labelsArgument\<close> writes after \<open>--labels\<close>.\<close>

definition label_list :: "string \<Rightarrow> string option \<Rightarrow> string" where
  "label_list runnerType runnerExtraLabels =
     runnerType @ (case runnerExtraLabels of None \<Rightarrow> [] | Some x \<Rightarrow> CHR '','' # x)"

text \<open>A setting that is absent or holds no space.\<close>

definition spaceless :: "string option \<Rightarrow> bool" where
  "spaceless v = (case v of None \<Rightarrow> True | Some s \<Rightarrow> CHR '' '' \<notin> set s)"

section \<open>Scenarios\<close>

text \<open>
  Collaborators that never reject: the check run has the given status, \<open>listRunners\<close>
  returns the given tracked runners and \<open>listGithubRunners\<close> the given live runners.
  \<open>yn_demo\<close> gives the default for an unset flag and reads the plain lower-case words; the
  \<open>yn\<close> package also trims the value and ignores its case, which no scenario below needs:
  each leaves \<open>ENABLE_ORGANIZATION_RUNNERS\<close> unset.
\<close>

definition yn_demo :: "string option \<Rightarrow> bool \<Rightarrow> bool" where
  "yn_demo v d =
     (case v of
        None \<Rightarrow> d
      | Some s \<Rightarrow>
          if s \<in> set [''y'', ''yes'', ''true'', ''1'', ''on''] then True
          else if s \<in> set [''n'', ''no'', ''false'', ''0'', ''off''] then False
          else d)"

definition world :: "string \<Rightarrow> RunnerInfo list \<Rightarrow> GhRunner list \<Rightarrow> collaborators" where
  "world checkRunStatus trackedRunners live =
     \<lparr>ext_yn = yn_demo,
      ext_createGithubAuth =
        (\<lambda>h i authType url. Inr (if authType = ''app'' then ''jwt'' else ''ghs'')),
      ext_createOctoClient = (\<lambda>h token url. Inr (if token = ''jwt'' then 1 else 2)),
      ext_getOrgInstallation = (\<lambda>h c org. Inr 42),
      ext_getRepoInstallation = (\<lambda>h c owner repo. Inr 43),
      ext_checks_get = (\<lambda>h c i owner repo. Inr checkRunStatus),
      ext_listRunners = (\<lambda>h environment repoName. Inr trackedRunners),
      ext_createRegistrationTokenForOrg = (\<lambda>h c org. Inr ''REG''),
      ext_createRegistrationTokenForRepo = (\<lambda>h c owner repo. Inr ''REG''),
      ext_createRunner = (\<lambda>h environment config orgName repoName rt. Inr ()),
      ext_createGitHubClientForRunner = (\<lambda>h org repo enableOrgLevel. Inr 3),
      ext_listGithubRunners = (\<lambda>h c org repo enableOrgLevel. Inr live)\<rparr>"

definition no_env :: process_env where
  "no_env =
     \<lparr>ENABLE_ORGANIZATION_RUNNERS = None, RUNNER_EXTRA_LABELS = None,
      RUNNER_GROUP_NAME = None, ENVIRONMENT = Some ''prod'', GHES_URL = None\<rparr>"

definition message :: "int \<Rightarrow> ActionRequestMessage" where
  "message inst =
     \<lparr>id' = 7, eventType = ''check_run'', repositoryName = ''widgets'',
      repositoryOwner = ''acme'', installationId = inst\<rparr>"

definition tracked :: "string \<Rightarrow> nat \<Rightarrow> RunnerInfo list" where
  "tracked name n = replicate n \<lparr>runnerType_field = Some name\<rparr>"

definition linux_runner :: "bool \<Rightarrow> GhRunner" where
  "linux_runner b =
     \<lparr>labels = [''self-hosted'', ''linux.2xlarge''], status = ''online'', busy = b\<rparr>"

definition all_busy :: "GhRunner list" where
  "all_busy = [linux_runner True, linux_runner True, linux_runner True]"

definition one_idle :: "GhRunner list" where
  "one_idle = [linux_runner True, linux_runner True, linux_runner False]"

text \<open>Live runners that the filter of \<open>allRunnersBusy\<close> drops for \<open>linux.2xlarge\<close>.\<close>

definition none_matching :: "GhRunner list" where
  "none_matching =
     [\<lparr>labels = [''self-hosted'', ''linux.2xlarge''], status = ''offline'', busy = False\<rparr>,
      \<lparr>labels = [''self-hosted'', ''win.2xlarge''], status = ''online'', busy = False\<rparr>]"

text \<open>The same collaborators with one call that is rejected.\<close>

definition token_rejecting :: "collaborators \<Rightarrow> collaborators" where
  "token_rejecting w =
     w\<lparr>ext_createRegistrationTokenForOrg := (\<lambda>h c org. Inl (Error ''HttpError''))\<rparr>"

definition runner_rejecting :: "collaborators \<Rightarrow> collaborators" where
  "runner_rejecting w =
     w\<lparr>ext_createRunner :=
         (\<lambda>h environment config orgName repoName rt. Inl (Error ''RequestLimitExceeded''))\<rparr>"

definition app_auth_rejecting :: "collaborators \<Rightarrow> collaborators" where
  "app_auth_rejecting w =
     w\<lparr>ext_createGithubAuth :=
         (\<lambda>h i authType url.
            if authType = ''app'' then Inl (Error ''HttpError'')
            else ext_createGithubAuth w h i authType url)\<rparr>"

definition app_client_rejecting :: "collaborators \<Rightarrow> collaborators" where
  "app_client_rejecting w =
     w\<lparr>ext_createOctoClient :=
         (\<lambda>h token url.
            if token = ''jwt'' then Inl (Error ''HttpError'')
            else ext_createOctoClient w h token url)\<rparr>"

text \<open>The environment with an enterprise server configured.\<close>

definition ghes_env :: process_env where
  "ghes_env = no_env\<lparr>GHES_URL := Some ''https://ghe.example.com''\<rparr>"


text \<open>The entries of \<open>linux.2xlarge\<close> and of \<open>win.2xlarge\<close> in the table.\<close>

definition win_2xlarge :: RunnerType where
  "win_2xlarge =
     \<lparr>instance_type = ''c5.2xlarge'', os = ''windows'',
      ami_filter = ''Windows_Server-2019-English-Core*'',
      max_available = 50, min_available = 10, disk_size = 100,
      runnerTypeName = ''win.2xlarge''\<rparr>"

definition linux_2xlarge :: RunnerType where
  "linux_2xlarge =
     \<lparr>instance_type = ''c5.2xlarge'', os = ''linux'',
      ami_filter = ''amzn2-ami-hvm-2.0*x86_64-ebs'',
      max_available = 200, min_available = 10, disk_size = 100,
      runnerTypeName = ''linux.2xlarge''\<rparr>"

text \<open>The invocation for a queued check run with \<open>n\<close> tracked \<open>linux.2xlarge\<close> runners.\<close>

definition queued_run :: "nat \<Rightarrow> GhRunner list \<Rightarrow> run \<times> (error + unit)" where
  "queued_run n live =
     scaleUp (world ''queued'' (tracked ''linux.2xlarge'' n) live) no_env ''aws:sqs'' (message 1)
       start"

text \<open>The invocation for a check run that is already completed.\<close>

definition completed_run :: "int \<Rightarrow> run \<times> (error + unit)" where
  "completed_run inst =
     scaleUp (world ''completed'' (tracked ''linux.2xlarge'' 5) all_busy) no_env ''aws:sqs''
       (message inst) start"

text \<open>What these collaborators make of one pass of the loop body and of one promise.\<close>

definition provisioned :: "string \<times> RunnerType \<Rightarrow> event list" where
  "provisioned entry =
     [(CreateRegistrationTokenForOrg 2 ''acme'', Token ''REG''),
      (CreateRunner (Some ''prod'')
         (''--url https://github.com/acme --token REG --labels '' @ fst entry)
         (Some ''acme'') None (snd entry), Done)]"

definition checked :: "GhRunner list \<Rightarrow> string \<times> RunnerType \<Rightarrow> string \<times> promise" where
  "checked live entry =
     (fst entry,
      Promise
        [(CreateGitHubClientForRunner ''acme'' ''widgets'' True, Client 3),
         (ListGithubRunners 3 ''acme'' ''widgets'' True, GhRunners live),
         (ConsoleInfo
            (''Found '' @ show_nat (length (runnersWithLabel (fst entry) live))
               @ '' matching GitHub runners, '' @ show_nat (length (filter busy live))
               @ '' are busy''), Done)]
        (Inr (list_all busy (runnersWithLabel (fst entry) live))))"

section \<open>Lemmas\<close>

subsection \<open>Control flow\<close>

lemma awaitE:
  assumes "await m k s = (s', r)"
  obtains (rejected) e where "m s = (s', Inl e)" "r = Inl e"
        | (fulfilled) x s1 where "m s = (s1, Inr x)" "k x s1 = (s', r)"
  using assms by (auto simp: await_def split: prod.splits sum.splits)

lemma await_assoc: "await (await m k) k' = await m (\<lambda>x. await (k x) k')"
  by (rule ext) (simp add: await_def split: prod.splits sum.splits)

lemma await_throw: "await (throw e) k = throw e"
  by (rule ext) (simp add: await_def throw_def)

lemma await_resolve: "await (resolve x) k = k x"
  by (rule ext) (simp add: await_def resolve_def)

lemma scaleUp_front_loop:
  "scaleUp w env eventSource payload =
     await (scaleUp_front w env eventSource payload) (scaleUp_loop w env payload)"
  by (simp add: scaleUp_def scaleUp_front_def scaleUp_loop_def Let_def await_assoc await_throw
      await_resolve if_distrib [where f = "\<lambda>m. await m k" for k] cong: if_cong)

subsection \<open>Filters over calls\<close>

lemma well_keyed_runnerTypes: "well_keyed runnerTypes"
  by (simp add: well_keyed_def runnerTypes_def)

lemma calls_creating_append [simp]:
  "calls_creating name (xs @ ys) = calls_creating name xs @ calls_creating name ys"
  by (simp add: calls_creating_def)

lemma checks_for_append [simp]:
  "checks_for name (xs @ ys) = checks_for name xs @ checks_for name ys"
  by (simp add: checks_for_def)

lemma token_calls_append [simp]: "token_calls (xs @ ys) = token_calls xs @ token_calls ys"
  by (simp add: token_calls_def)

lemma create_calls_append [simp]: "create_calls (xs @ ys) = create_calls xs @ create_calls ys"
  by (simp add: create_calls_def)

lemma tokenCall_kind [simp]:
  "is_token_call (tokenCall lvl c payload)" "\<not> is_createRunner (tokenCall lvl c payload)"
  "\<not> creates name (tokenCall lvl c payload)"
  by (simp_all add: tokenCall_def)

lemma createCall_kind [simp]:
  "\<not> is_token_call (createCall env lvl payload token k rt)"
  "is_createRunner (createCall env lvl payload token k rt)"
  "creates name (createCall env lvl payload token k rt) = (runnerTypeName rt = name)"
  by (simp_all add: createCall_def)

lemma provisioning_not_lookup: "is_token_call c \<or> is_createRunner c \<Longrightarrow> \<not> is_lookup c"
  by (cases c) simp_all

lemma provisioning_kind:
  assumes "list_all provisioning evs"
  shows "(c, CheckRunStatus st) \<notin> set evs" and "(c, Runners rs) \<notin> set evs"
    and "(ChecksGet cl i ownr rp, rep) \<notin> set evs"
    and "(ListRunners e rn, rep) \<notin> set evs"
  using assms by (auto simp: list_all_iff provisioning_def)

lemma provisioning_no_lookup:
  assumes "list_all provisioning evs"
  shows "filter (\<lambda>ev. is_lookup (fst ev)) evs = []"
proof -
  have "\<not> is_lookup (fst ev)" if "ev \<in> set evs" for ev
    using assms that by (intro provisioning_not_lookup) (simp add: list_all_iff provisioning_def)
  then show ?thesis by (simp add: filter_empty_conv)
qed

lemma resolver_or_check_not_fleet:
  "resolver_call c \<or> is_checks_get c \<Longrightarrow> \<not> fleet_or_provisioning c"
  by (cases c) simp_all

subsection \<open>One pass of the loop body\<close>

lemma iteration_at_ceiling:
  assumes "\<not> currentRunnerCount rs name < max_available rt"
  shows "scaleUp_runnerType w env payload lvl c rs (name, rt) s = (s, Inr ())"
  using assms by (simp add: scaleUp_runnerType_def resolve_def)

lemma iteration_below_ceiling:
  assumes "currentRunnerCount rs name < max_available rt"
      and "scaleUp_runnerType w env payload lvl c rs (name, rt) s = (s', out)"
  obtains (token_rejected) e where
      "out = Inl e"
      "calls s' = calls s @ [(tokenCall lvl c payload, Rejected e)]"
      "unawaited s' = unawaited s @ [(name, admission w name payload lvl s)]"
    | (token_issued) token where
      "calls s' = calls s @
                [(tokenCall lvl c payload, Token token),
                 (createCall env lvl payload token name rt,
                  case out of Inl e \<Rightarrow> Rejected e | Inr _ \<Rightarrow> Done)]"
      "unawaited s' = unawaited s @ [(name, admission w name payload lvl s)]"
  using assms
  by (auto simp: scaleUp_runnerType_def await_def unawaited_call_def
      truthy_promise_def createRegistrationTokenForOrg_def createRegistrationTokenForRepo_def
      createRunner_def invoke_def Let_def tokenCall_def admission_def createCall_def
      split: sum.splits if_splits)

lemma iteration_frame:
  assumes "scaleUp_runnerType w env payload lvl c rs (name, rt) s = (s', out)"
  shows "\<exists>evs ps. calls s' = calls s @ evs \<and> list_all provisioning evs \<and>
           unawaited s' = unawaited s @ ps"
proof (cases "currentRunnerCount rs name < max_available rt")
  case False
  with assms show ?thesis by (simp add: iteration_at_ceiling)
next
  case True
  from True assms show ?thesis
    by (cases rule: iteration_below_ceiling)
       (auto simp: provisioning_def tokenCall_def createCall_def split: sum.splits)
qed

lemma iteration_other:
  assumes "scaleUp_runnerType w env payload lvl c rs (k, v) s = (s', out)"
      and "runnerTypeName v = k" and "k \<noteq> name \<or> \<not> below_ceiling rs (k, v)"
  shows "calls_creating name (calls s') = calls_creating name (calls s)"
    and "checks_for name (unawaited s') = checks_for name (unawaited s)"
proof -
  have "calls_creating name (calls s') = calls_creating name (calls s) \<and>
        checks_for name (unawaited s') = checks_for name (unawaited s)"
  proof (cases "currentRunnerCount rs k < max_available v")
    case False
    with assms(1) show ?thesis by (simp add: iteration_at_ceiling)
  next
    case True
    with assms(3) have "k \<noteq> name" by (simp add: below_ceiling_def)
    with True assms(1,2) show ?thesis
      by (cases rule: iteration_below_ceiling)
         (simp_all add: calls_creating_def checks_for_def)
  qed
  then show "calls_creating name (calls s') = calls_creating name (calls s)"
    and "checks_for name (unawaited s') = checks_for name (unawaited s)" by simp_all
qed

subsection \<open>The loop\<close>

lemma loop_frame:
  assumes "for_in (scaleUp_runnerType w env payload lvl c rs) xs s = (s', out)"
  shows "\<exists>evs ps. calls s' = calls s @ evs \<and> list_all provisioning evs \<and>
           unawaited s' = unawaited s @ ps"
  using assms
proof (induction xs arbitrary: s)
  case Nil
  then show ?case by simp
next
  case (Cons x xs)
  obtain name rt where x: "x = (name, rt)" by (cases x)
  obtain s1 r1 where step: "scaleUp_runnerType w env payload lvl c rs (name, rt) s = (s1, r1)"
    by (cases "scaleUp_runnerType w env payload lvl c rs (name, rt) s")
  from iteration_frame [OF step] obtain evs ps where
    1: "calls s1 = calls s @ evs" "list_all provisioning evs" "unawaited s1 = unawaited s @ ps"
    by blast
  show ?case
  proof (cases r1)
    case (Inl e)
    with Cons.prems x step have "s' = s1" by simp
    with 1 show ?thesis by blast
  next
    case (Inr u)
    with Cons.prems x step have "for_in (scaleUp_runnerType w env payload lvl c rs) xs s1 = (s', out)"
      by simp
    from Cons.IH [OF this] obtain evs' ps' where
      "calls s' = calls s1 @ evs'" "list_all provisioning evs'" "unawaited s' = unawaited s1 @ ps'"
      by blast
    with 1 have "calls s' = calls s @ (evs @ evs')" "list_all provisioning (evs @ evs')"
       "unawaited s' = unawaited s @ (ps @ ps')" by simp_all
    then show ?thesis by blast
  qed
qed

lemma loop_skips:
  assumes "for_in (scaleUp_runnerType w env payload lvl c rs) xs s = (s', out)"
      and "list_all (\<lambda>entry. runnerTypeName (snd entry) = fst entry) xs"
      and "list_all (\<lambda>entry. fst entry \<noteq> name \<or> \<not> below_ceiling rs entry) xs"
  shows "calls_creating name (calls s') = calls_creating name (calls s) \<and>
         checks_for name (unawaited s') = checks_for name (unawaited s)"
  using assms
proof (induction xs arbitrary: s)
  case Nil
  then show ?case by simp
next
  case (Cons x xs)
  obtain k v where x: "x = (k, v)" by (cases x)
  obtain s1 r1 where step: "scaleUp_runnerType w env payload lvl c rs (k, v) s = (s1, r1)"
    by (cases "scaleUp_runnerType w env payload lvl c rs (k, v) s")
  from Cons.prems x have kv: "runnerTypeName v = k" "k \<noteq> name \<or> \<not> below_ceiling rs (k, v)"
    by simp_all
  note same = iteration_other [OF step kv]
  show ?case
  proof (cases r1)
    case (Inl e)
    with Cons.prems(1) x step have "s' = s1" by simp
    with same show ?thesis by simp
  next
    case (Inr u)
    with Cons.prems(1) x step
    have "for_in (scaleUp_runnerType w env payload lvl c rs) xs s1 = (s', out)" by simp
    from Cons.IH [OF this] Cons.prems(2,3) same show ?thesis by simp
  qed
qed

lemma loop_provisions_once:
  assumes "for_in (scaleUp_runnerType w env payload lvl c rs) xs s = (s', Inr ())"
      and "well_keyed xs" and "(name, rt) \<in> set xs" and "below_ceiling rs (name, rt)"
  shows "\<exists>pre post token p.
           calls s' = calls s @ pre @
             [(tokenCall lvl c payload, Token token),
              (createCall env lvl payload token name rt, Done)] @ post \<and>
           calls_creating name pre = [] \<and> calls_creating name post = [] \<and>
           checks_for name (unawaited s') = checks_for name (unawaited s) @ [(name, p)]"
  using assms
proof (induction xs arbitrary: s)
  case Nil
  then show ?case by simp
next
  case (Cons x xs)
  let ?body = "scaleUp_runnerType w env payload lvl c rs"
  obtain k v where x: "x = (k, v)" by (cases x)
  obtain s1 r1 where step: "?body (k, v) s = (s1, r1)" by (cases "?body (k, v) s")
  from Cons.prems(1) x step have r1: "r1 = Inr ()" and rest: "for_in ?body xs s1 = (s', Inr ())"
    by (auto split: sum.splits)
  from Cons.prems(2) x have tag: "runnerTypeName v = k" and fresh: "k \<notin> fst ` set xs"
    and wk: "well_keyed xs"
    by (auto simp: well_keyed_def)
  from wk have tags: "list_all (\<lambda>entry. runnerTypeName (snd entry) = fst entry) xs"
    by (simp add: well_keyed_def)
  show ?case
  proof (cases "k = name")
    case True
    with Cons.prems(3) x fresh have v: "v = rt" by force
    from True fresh have "list_all (\<lambda>entry. fst entry \<noteq> name \<or> \<not> below_ceiling rs entry) xs"
      by (auto simp: list_all_iff)
    from loop_skips [OF rest tags this]
    have after: "calls_creating name (calls s') = calls_creating name (calls s1)"
      "checks_for name (unawaited s') = checks_for name (unawaited s1)" by simp_all
    from loop_frame [OF rest] obtain post where post: "calls s' = calls s1 @ post" by blast
    from Cons.prems(4) have "currentRunnerCount rs name < max_available rt"
      by (simp add: below_ceiling_def)
    from this step [unfolded True v] obtain token where
      tk: "calls s1 = calls s @ [(tokenCall lvl c payload, Token token),
              (createCall env lvl payload token name rt, Done)]"
        "unawaited s1 = unawaited s @ [(name, admission w name payload lvl s)]"
      using r1 by (cases rule: iteration_below_ceiling) simp_all
    from after(1) post have "calls_creating name post = []" by simp
    with tk post after(2)
    have "calls s' = calls s @ [] @
             [(tokenCall lvl c payload, Token token),
              (createCall env lvl payload token name rt, Done)] @ post \<and>
           calls_creating name [] = [] \<and> calls_creating name post = [] \<and>
           checks_for name (unawaited s') =
             checks_for name (unawaited s) @ [(name, admission w name payload lvl s)]"
      by (simp add: checks_for_def calls_creating_def)
    then show ?thesis by blast
  next
    case False
    with Cons.prems(3) x have "(name, rt) \<in> set xs" by simp
    from Cons.IH [OF rest wk this Cons.prems(4)] obtain pre post token p where
      ih: "calls s' = calls s1 @ pre @
             [(tokenCall lvl c payload, Token token),
              (createCall env lvl payload token name rt, Done)] @ post"
          "calls_creating name pre = []" "calls_creating name post = []"
          "checks_for name (unawaited s') = checks_for name (unawaited s1) @ [(name, p)]"
      by blast
    from False have "k \<noteq> name \<or> \<not> below_ceiling rs (k, v)" by simp
    note same = iteration_other [OF step tag this]
    from iteration_frame [OF step] obtain evs where evs: "calls s1 = calls s @ evs" by blast
    with same(1) have "calls_creating name evs = []" by simp
    with ih evs same(2)
    have "calls s' = calls s @ (evs @ pre) @
             [(tokenCall lvl c payload, Token token),
              (createCall env lvl payload token name rt, Done)] @ post \<and>
           calls_creating name (evs @ pre) = [] \<and> calls_creating name post = [] \<and>
           checks_for name (unawaited s') = checks_for name (unawaited s) @ [(name, p)]"
      by simp
    then show ?thesis by blast
  qed
qed

lemma loop_counts:
  assumes "for_in (scaleUp_runnerType w env payload lvl c rs) xs s = (s', Inr ())"
  shows "length (token_calls (calls s')) = length (token_calls (calls s)) + length (filter (below_ceiling rs) xs) \<and>
         length (create_calls (calls s')) = length (create_calls (calls s)) + length (filter (below_ceiling rs) xs) \<and>
         length (unawaited s') = length (unawaited s) + length (filter (below_ceiling rs) xs)"
  using assms
proof (induction xs arbitrary: s)
  case Nil
  then show ?case by simp
next
  case (Cons x xs)
  let ?body = "scaleUp_runnerType w env payload lvl c rs"
  obtain k v where x: "x = (k, v)" by (cases x)
  obtain s1 r1 where step: "?body (k, v) s = (s1, r1)" by (cases "?body (k, v) s")
  from Cons.prems(1) x step have r1: "r1 = Inr ()" and rest: "for_in ?body xs s1 = (s', Inr ())"
    by (auto split: sum.splits)
  note ih = Cons.IH [OF rest]
  show ?case
  proof (cases "currentRunnerCount rs k < max_available v")
    case False
    with step have "s1 = s" by (simp add: iteration_at_ceiling)
    with ih False x show ?thesis by (simp add: below_ceiling_def)
  next
    case True
    from True step r1 obtain token where
      "calls s1 = calls s @ [(tokenCall lvl c payload, Token token),
              (createCall env lvl payload token k v, Done)]"
      "unawaited s1 = unawaited s @ [(k, admission w k payload lvl s)]"
      by (cases rule: iteration_below_ceiling) simp_all
    with ih True x show ?thesis
      by (simp add: below_ceiling_def token_calls_def create_calls_def)
  qed
qed


lemma entry_at_ceiling:
  assumes "well_keyed xs" and "(name, rt) \<in> set xs" and "\<not> below_ceiling rs (name, rt)"
  shows "list_all (\<lambda>entry. fst entry \<noteq> name \<or> \<not> below_ceiling rs entry) xs"
proof -
  have "fst entry \<noteq> name \<or> \<not> below_ceiling rs entry" if "entry \<in> set xs" for entry
  proof (cases "fst entry = name")
    case True
    with that have "(name, snd entry) \<in> set xs" by (metis prod.collapse)
    with assms(1,2) have "snd entry = rt"
      by (auto simp: well_keyed_def dest: eq_key_imp_eq_value)
    with True assms(3) show ?thesis by (cases entry) simp
  qed simp
  then show ?thesis by (simp add: list_all_iff)
qed

subsection \<open>Before the loop\<close>

lemmas front_unfold =
  scaleUp_front_def await_def invoke_def throw_def resolve_def Let_def start_def
  createGithubAuth_def createOctoClient_def getOrgInstallation_def getRepoInstallation_def
  checks_get_def listRunners_def console_info_def

lemma front_no_provisioning:
  assumes "scaleUp_front w env src payload start = (s0, r)"
  shows "unawaited s0 = [] \<and> token_calls (calls s0) = [] \<and> create_calls (calls s0) = []
           \<and> calls_creating name (calls s0) = []"
  using assms
  by (auto simp: front_unfold token_calls_def create_calls_def calls_creating_def
      split: if_splits sum.splits)

lemma front_not_queued:
  assumes "scaleUp_front w env src payload start = (s0, Inr None)"
  shows "list_all (\<lambda>ev. resolver_call (fst ev) \<or> is_checks_get (fst ev)) (calls s0)"
  using assms
  by (auto simp: front_unfold split: if_splits sum.splits)

lemma front_status:
  assumes "scaleUp_front w env src payload start = (s0, r)"
      and "(c, CheckRunStatus st) \<in> set (calls s0)"
  shows "(st = ''queued'') = (r \<noteq> Inr None)"
  using assms
  by (auto simp: front_unfold split: if_splits sum.splits)

lemma front_entered:
  assumes "scaleUp_front w env src payload start = (s0, Inr (Some (c, rs)))"
  shows "(ChecksGet c' i ownr rp, rep) \<in> set (calls s0) \<Longrightarrow> c' = c"
    and "(cl, Runners rs') \<in> set (calls s0) \<Longrightarrow> rs' = rs"
  using assms
  by (auto simp: front_unfold split: if_splits sum.splits)

lemma front_no_lookup:
  assumes "scaleUp_front w env src payload start = (s0, r)" and "installationId payload \<noteq> 0"
  shows "filter (\<lambda>ev. is_lookup (fst ev)) (calls s0) = []"
  using assms
  by (auto simp: front_unfold split: if_splits sum.splits)

lemma front_one_lookup:
  assumes "scaleUp_front w env ''aws:sqs'' payload start = (s0, r)"
      and "installationId payload = 0"
      and "ext_createGithubAuth w [] None ''app'' (ghesApiUrl (GHES_URL env)) = Inr token"
      and "ext_createOctoClient w
             [(CreateGithubAuth None ''app'' (ghesApiUrl (GHES_URL env)), Token token)]
             token (ghesApiUrl (GHES_URL env)) = Inr c"
  shows "map fst (take 3 (calls s0)) =
           [CreateGithubAuth None ''app'' (ghesApiUrl (GHES_URL env)),
            CreateOctoClient token (ghesApiUrl (GHES_URL env)),
            lookupCall (ext_yn w (ENABLE_ORGANIZATION_RUNNERS env) True) c payload] \<and>
         filter (\<lambda>ev. is_lookup (fst ev)) (drop 3 (calls s0)) = []"
  using assms
  by (auto simp: front_unfold lookupCall_def split: if_splits sum.splits)

subsection \<open>The whole invocation\<close>

lemma scaleUp_cases [consumes 1, case_names rejected not_queued looped]:
  assumes "scaleUp w env src payload start = (R, out)"
  obtains (rejected) e where "scaleUp_front w env src payload start = (R, Inl e)" "out = Inl e"
    | (not_queued) "scaleUp_front w env src payload start = (R, Inr None)" "out = Inr ()"
    | (looped) s0 c rs evs where
        "scaleUp_front w env src payload start = (s0, Inr (Some (c, rs)))"
        "for_in (scaleUp_runnerType w env payload (ext_yn w (ENABLE_ORGANIZATION_RUNNERS env) True) c rs)
           runnerTypes s0 = (R, out)"
        "calls R = calls s0 @ evs" "list_all provisioning evs"
proof -
  from assms have "await (scaleUp_front w env src payload) (scaleUp_loop w env payload) start = (R, out)"
    by (simp add: scaleUp_front_loop)
  then show thesis
  proof (cases rule: awaitE)
    case (rejected e)
    then show ?thesis by (rule that(1))
  next
    case (fulfilled x s0)
    show ?thesis
    proof (cases x)
      case None
      with fulfilled have "s0 = R" "out = Inr ()" by (simp_all add: scaleUp_loop_def resolve_def)
      with fulfilled None show ?thesis by (auto intro: that(2))
    next
      case (Some a)
      obtain c rs where a: "a = (c, rs)" by (cases a)
      with fulfilled Some
      have loop: "for_in (scaleUp_runnerType w env payload (ext_yn w (ENABLE_ORGANIZATION_RUNNERS env) True) c rs)
           runnerTypes s0 = (R, out)" by (simp add: scaleUp_loop_def)
      from loop_frame [OF loop] obtain evs where "calls R = calls s0 @ evs" "list_all provisioning evs"
        by blast
      with fulfilled Some a loop show ?thesis by (auto intro: that(3))
    qed
  qed
qed

lemma invocation_provisions:
  assumes "scaleUp w env eventSource payload start = (R, Inr ())"
      and "(ChecksGet c i owner repo, rep) \<in> set (calls R)"
      and "(ListRunners e rn, Runners currentRunners) \<in> set (calls R)"
  shows "length (token_calls (calls R)) = length (filter (below_ceiling currentRunners) runnerTypes)"
    and "length (create_calls (calls R)) = length (filter (below_ceiling currentRunners) runnerTypes)"
    and "length (unawaited R) = length (filter (below_ceiling currentRunners) runnerTypes)"
    and "(name, rt) \<in> set runnerTypes \<Longrightarrow> below_ceiling currentRunners (name, rt) \<Longrightarrow>
         \<exists>pre post token p.
           calls R = pre @
             [(tokenCall (ext_yn w (ENABLE_ORGANIZATION_RUNNERS env) True) c payload, Token token),
              (createCall env (ext_yn w (ENABLE_ORGANIZATION_RUNNERS env) True) payload token name rt,
               Done)] @ post \<and>
           calls_creating name pre = [] \<and> calls_creating name post = [] \<and>
           checks_for name (unawaited R) = [(name, p)]"
proof -
  let ?lvl = "ext_yn w (ENABLE_ORGANIZATION_RUNNERS env) True"
  let ?n = "length (filter (below_ceiling currentRunners) runnerTypes)"
  have "length (token_calls (calls R)) = ?n \<and> length (create_calls (calls R)) = ?n \<and>
        length (unawaited R) = ?n \<and>
        ((name, rt) \<in> set runnerTypes \<longrightarrow> below_ceiling currentRunners (name, rt) \<longrightarrow>
         (\<exists>pre post token p.
           calls R = pre @
             [(tokenCall ?lvl c payload, Token token),
              (createCall env ?lvl payload token name rt, Done)] @ post \<and>
           calls_creating name pre = [] \<and> calls_creating name post = [] \<and>
           checks_for name (unawaited R) = [(name, p)]))"
    using assms(1)
  proof (cases rule: scaleUp_cases)
    case (rejected e)
    then show ?thesis by simp
  next
    case not_queued
    from front_not_queued [OF not_queued(1)] assms(3) show ?thesis
      by (auto simp: list_all_iff)
  next
    case (looped s0 c' rs evs)
    from assms(3) looped(3) provisioning_kind(2) [OF looped(4)]
    have "(ListRunners e rn, Runners currentRunners) \<in> set (calls s0)" by auto
    with front_entered(2) [OF looped(1)] have rs: "rs = currentRunners" by blast
    from assms(2) looped(3) provisioning_kind(3) [OF looped(4)]
    have "(ChecksGet c i owner repo, rep) \<in> set (calls s0)" by auto
    with front_entered(1) [OF looped(1)] have c: "c' = c" by blast
    note loop = looped(2) [unfolded rs c]
    note front = front_no_provisioning [OF looped(1)]
    from loop_counts [OF loop] front [of name]
    have counts: "length (token_calls (calls R)) = ?n \<and> length (create_calls (calls R)) = ?n \<and>
        length (unawaited R) = ?n" by simp
    have "\<exists>pre post token p.
           calls R = pre @
             [(tokenCall ?lvl c payload, Token token),
              (createCall env ?lvl payload token name rt, Done)] @ post \<and>
           calls_creating name pre = [] \<and> calls_creating name post = [] \<and>
           checks_for name (unawaited R) = [(name, p)]"
      if "(name, rt) \<in> set runnerTypes" "below_ceiling currentRunners (name, rt)"
    proof -
      from loop_provisions_once [OF loop well_keyed_runnerTypes that]
      obtain pre post token p where
        "calls R = calls s0 @ pre @
             [(tokenCall ?lvl c payload, Token token),
              (createCall env ?lvl payload token name rt, Done)] @ post"
        "calls_creating name pre = []" "calls_creating name post = []"
        "checks_for name (unawaited R) = checks_for name (unawaited s0) @ [(name, p)]"
        by blast
      with front [of name]
      have "calls R = (calls s0 @ pre) @
             [(tokenCall ?lvl c payload, Token token),
              (createCall env ?lvl payload token name rt, Done)] @ post \<and>
           calls_creating name (calls s0 @ pre) = [] \<and> calls_creating name post = [] \<and>
           checks_for name (unawaited R) = [(name, p)]"
        by (simp add: checks_for_def)
      then show ?thesis by blast
    qed
    with counts show ?thesis by blast
  qed
  then show "length (token_calls (calls R)) = ?n" "length (create_calls (calls R)) = ?n"
    "length (unawaited R) = ?n"
    "(name, rt) \<in> set runnerTypes \<Longrightarrow> below_ceiling currentRunners (name, rt) \<Longrightarrow>
         \<exists>pre post token p.
           calls R = pre @
             [(tokenCall ?lvl c payload, Token token),
              (createCall env ?lvl payload token name rt, Done)] @ post \<and>
           calls_creating name pre = [] \<and> calls_creating name post = [] \<and>
           checks_for name (unawaited R) = [(name, p)]"
    by blast+
qed

subsection \<open>Splitting a configuration string\<close>

lemma split_on_not_Nil: "split_on c xs \<noteq> []"
  by (induction xs) (auto split: list.splits)

lemma split_on_word: "c \<notin> set w \<Longrightarrow> split_on c w = [w]"
  by (induction w) auto

lemma split_on_sep: "split_on c (p @ c # b) = split_on c p @ split_on c b"
proof (induction p)
  case Nil
  show ?case by simp
next
  case (Cons x p)
  then show ?case
    by (cases "split_on c p") (auto simp: split_on_not_Nil)
qed

lemma split_on_word_sep: "c \<notin> set w \<Longrightarrow> split_on c (w @ c # b) = w # split_on c b"
  by (simp add: split_on_sep split_on_word)

lemma takeWhile_upto: "c \<notin> set xs \<Longrightarrow> takeWhile (\<lambda>x. x \<noteq> c) (xs @ c # e) = xs"
  by (induction xs) auto

lemma dropWhile_upto: "c \<notin> set xs \<Longrightarrow> dropWhile (\<lambda>x. x \<noteq> c) (xs @ c # e) = c # e"
  by (induction xs) auto

lemma takeWhile_all: "c \<notin> set xs \<Longrightarrow> takeWhile (\<lambda>x. x \<noteq> c) xs = xs"
  by (induction xs) auto

lemma read_labels_plain: "CHR '','' \<notin> set c \<Longrightarrow> read_labels c = (c, None)"
  by (simp add: read_labels_def takeWhile_all)

lemma read_labels_extra:
  "CHR '','' \<notin> set c \<Longrightarrow> read_labels (c @ CHR '','' # e) = (c, Some e)"
  by (simp add: read_labels_def takeWhile_upto dropWhile_upto)

lemma config_shape:
  "\<exists>p. runnerConfig lvl ghes owner repo token c e g =
         p @ CHR '' '' # ''--labels'' @ CHR '' '' # label_list c e @
           (case (if lvl then g else None) of None \<Rightarrow> []
            | Some x \<Rightarrow> CHR '' '' # ''--runnergroup'' @ CHR '' '' # x)"
proof (cases lvl)
  case True
  have "runnerConfig lvl ghes owner repo token c e g =
         (''--url '' @ configBaseUrl ghes @ ''/'' @ owner @ '' --token '' @ token)
           @ CHR '' '' # ''--labels'' @ CHR '' '' # label_list c e @
           (case (if lvl then g else None) of None \<Rightarrow> []
            | Some x \<Rightarrow> CHR '' '' # ''--runnergroup'' @ CHR '' '' # x)"
    using True
    by (simp add: runnerConfig_def labelsArgument_def runnerGroupArgument_def label_list_def
        split: option.splits)
  then show ?thesis by blast
next
  case False
  have "runnerConfig lvl ghes owner repo token c e g =
         (''--url '' @ configBaseUrl ghes @ ''/'' @ owner @ ''/'' @ repo @ '' --token '' @ token)
           @ CHR '' '' # ''--labels'' @ CHR '' '' # label_list c e @
           (case (if lvl then g else None) of None \<Rightarrow> []
            | Some x \<Rightarrow> CHR '' '' # ''--runnergroup'' @ CHR '' '' # x)"
    using False
    by (simp add: runnerConfig_def labelsArgument_def runnerGroupArgument_def label_list_def
        split: option.splits)
  then show ?thesis by blast
qed

lemma read_label_list:
  "CHR '','' \<notin> set c \<Longrightarrow> read_labels (label_list c e) = (c, e)"
  by (cases e) (simp_all add: label_list_def read_labels_plain read_labels_extra)

lemma label_list_spaceless:
  "CHR '' '' \<notin> set c \<Longrightarrow> spaceless e \<Longrightarrow> CHR '' '' \<notin> set (label_list c e)"
  by (cases e) (simp_all add: label_list_def spaceless_def)

subsection \<open>The scenarios, run\<close>

lemma show_nat_digit: "n < 10 \<Longrightarrow> show_nat n = [''0123456789'' ! n]"
  by (simp add: show_nat.simps)

lemma show_nat_digits:
  "10 \<le> n \<Longrightarrow> show_nat n = show_nat (n div 10) @ [''0123456789'' ! (n mod 10)]"
  by (subst show_nat.simps) simp

lemmas show_nat_eval = show_nat_digit show_nat_digits

lemma tracked_count: "currentRunnerCount (tracked name n) k = (if k = name then n else 0)"
  by (simp add: currentRunnerCount_def tracked_def)

lemma tracked_length: "length (tracked name n) = n"
  by (simp add: tracked_def)

lemmas run_unfold =
  scaleUp_def scaleUp_runnerType_def allRunnersBusy_def runnerTypes_def
  await_def invoke_def throw_def resolve_def Let_def start_def unawaited_call_def
  run_detached_def truthy_promise_def truthy_def ghesApiUrl_def configBaseUrl_def
  runnerConfig_def labelsArgument_def runnerGroupArgument_def
  createGithubAuth_def createOctoClient_def getOrgInstallation_def getRepoInstallation_def
  checks_get_def listRunners_def console_info_def createRegistrationTokenForOrg_def
  createRegistrationTokenForRepo_def createRunner_def createGitHubClientForRunner_def
  listGithubRunners_def tracked_count tracked_length
  world_def no_env_def message_def yn_demo_def provisioned_def checked_def below_ceiling_def

lemma linux_2xlarge_entry: "(''linux.2xlarge'', linux_2xlarge) \<in> set runnerTypes"
  by (simp add: runnerTypes_def linux_2xlarge_def)

lemma completed_run_trace:
  "completed_run inst =
     (\<lparr>calls =
         (if inst = 0
          then [(CreateGithubAuth None ''app'' [], Token ''jwt''),
                (CreateOctoClient ''jwt'' [], Client 1),
                (GetOrgInstallation 1 ''acme'', InstallationId 42)]
          else []) @
         [(CreateGithubAuth (Some (if inst = 0 then 42 else inst)) ''installation'' [],
           Token ''ghs''),
          (CreateOctoClient ''ghs'' [], Client 2),
          (ChecksGet 2 7 ''acme'' ''widgets'', CheckRunStatus ''completed'')],
        unawaited = []\<rparr>,
      Inr ())"
  by (simp add: completed_run_def run_unfold)

lemma queued_run_trace:
  "queued_run n live =
     (\<lparr>calls =
         [(CreateGithubAuth (Some 1) ''installation'' [], Token ''ghs''),
          (CreateOctoClient ''ghs'' [], Client 2),
          (ChecksGet 2 7 ''acme'' ''widgets'', CheckRunStatus ''queued''),
          (ListRunners (Some ''prod'') None, Runners (tracked ''linux.2xlarge'' n)),
          (ConsoleInfo (''Organization acme has '' @ show_nat n @ '' runners''), Done)] @
         concat (map provisioned
           (filter (below_ceiling (tracked ''linux.2xlarge'' n)) runnerTypes)),
        unawaited =
          map (checked live) (filter (below_ceiling (tracked ''linux.2xlarge'' n)) runnerTypes)\<rparr>,
      Inr ())"
  by (simp add: queued_run_def run_unfold)


text \<open>Runs in which a call is rejected, or an enterprise server is configured.\<close>

lemmas rejecting_unfold =
  token_rejecting_def runner_rejecting_def app_auth_rejecting_def app_client_rejecting_def
  ghes_env_def


lemma runner_rejected_trace:
  "scaleUp (runner_rejecting (world ''queued'' (tracked ''linux.2xlarge'' 5) one_idle)) no_env
       ''aws:sqs'' (message 1) start =
     (\<lparr>calls =
         [(CreateGithubAuth (Some 1) ''installation'' [], Token ''ghs''),
          (CreateOctoClient ''ghs'' [], Client 2),
          (ChecksGet 2 7 ''acme'' ''widgets'', CheckRunStatus ''queued''),
          (ListRunners (Some ''prod'') None, Runners (tracked ''linux.2xlarge'' 5)),
          (ConsoleInfo ''Organization acme has 5 runners'', Done),
          (CreateRegistrationTokenForOrg 2 ''acme'', Token ''REG''),
          (CreateRunner (Some ''prod'')
             ''--url https://github.com/acme --token REG --labels linux.2xlarge''
             (Some ''acme'') None linux_2xlarge,
           Rejected (Error ''RequestLimitExceeded''))],
        unawaited = [checked one_idle (''linux.2xlarge'', linux_2xlarge)]\<rparr>,
      Inl (Error ''RequestLimitExceeded''))"
  by (simp add: rejecting_unfold run_unfold show_nat_eval linux_2xlarge_def)


lemma no_lookup_traces:
  "scaleUp (world ''queued'' (tracked ''linux.2xlarge'' 5) all_busy) no_env ''aws:sns''
       (message 0) start = (start, Inl (Error ''Cannot handle non-SQS events!''))"
  "scaleUp (app_auth_rejecting (world ''queued'' (tracked ''linux.2xlarge'' 5) all_busy)) no_env
       ''aws:sqs'' (message 0) start =
     (\<lparr>calls = [(CreateGithubAuth None ''app'' [], Rejected (Error ''HttpError''))],
       unawaited = []\<rparr>, Inl (Error ''HttpError''))"
  "scaleUp (app_client_rejecting (world ''queued'' (tracked ''linux.2xlarge'' 5) all_busy)) no_env
       ''aws:sqs'' (message 0) start =
     (\<lparr>calls = [(CreateGithubAuth None ''app'' [], Token ''jwt''),
                (CreateOctoClient ''jwt'' [], Rejected (Error ''HttpError''))],
       unawaited = []\<rparr>, Inl (Error ''HttpError''))"
  by (simp_all add: rejecting_unfold run_unfold)

text \<open>The calls and promises of \<open>queued_run\<close> below and at the ceiling of \<open>linux.2xlarge\<close>.\<close>

lemmas queued_run_eval =
  queued_run_trace runnerTypes_def below_ceiling_def tracked_count provisioned_def checked_def
  checks_for_def calls_creating_def token_calls_def create_calls_def linux_2xlarge_def

section \<open>Properties\<close>

text \<open>
  C1. The claim: with the check run queued and a runner type below its ceiling, a live
  runner that carries the label, is not offline and is idle keeps \<open>scaleUp\<close> from calling
  \<open>createRunner\<close> for that runner type. The code does not do this. In the scenario of the
  spec (organisation \<open>acme\<close>, repository \<open>widgets\<close>, five tracked \<open>linux.2xlarge\<close> runners,
  three live ones of which one is idle) the promise of \<open>allRunnersBusy\<close> settles to
  \<open>false\<close>, and \<open>createRunner\<close> is called for \<open>linux.2xlarge\<close> all the same: line 117
  tests the promise, not its value.
\<close>

theorem idle_runner_does_not_prevent_creation:
  "checks_for ''linux.2xlarge'' (unawaited (fst (queued_run 5 one_idle)))
     = [(''linux.2xlarge'',
         Promise
           [(CreateGitHubClientForRunner ''acme'' ''widgets'' True, Client 3),
            (ListGithubRunners 3 ''acme'' ''widgets'' True, GhRunners one_idle),
            (ConsoleInfo ''Found 3 matching GitHub runners, 2 are busy'', Done)]
           (Inr False))] \<and>
   calls_creating ''linux.2xlarge'' (calls (fst (queued_run 5 one_idle)))
     = [(CreateRunner (Some ''prod'')
           ''--url https://github.com/acme --token REG --labels linux.2xlarge''
           (Some ''acme'') None linux_2xlarge,
         Done)]"
  by (simp add: queued_run_eval one_idle_def linux_runner_def runnersWithLabel_def
      show_nat_eval)

text \<open>
  C2. When the tracked runners that \<open>listRunners\<close> returned hold at least \<open>max_available\<close>
  runners of a runner type of the table, the invocation calls \<open>createRunner\<close> for that
  runner type not at all and starts no \<open>allRunnersBusy\<close> (so no live list is fetched) for
  it; the pass of the loop body for that runner type leaves the run as it found it: no
  live list, no registration token, no \<open>createRunner\<close>.
\<close>

theorem at_ceiling_is_skipped:
  assumes "scaleUp w env eventSource payload start = (R, out)"
      and "(ListRunners e rn, Runners currentRunners) \<in> set (calls R)"
      and "(name, rt) \<in> set runnerTypes"
      and "max_available rt \<le> currentRunnerCount currentRunners name"
  shows "calls_creating name (calls R) = [] \<and> checks_for name (unawaited R) = [] \<and>
         scaleUp_runnerType w env payload lvl c currentRunners (name, rt) s = (s, Inr ())"
proof -
  from assms(4) have ceiling: "\<not> currentRunnerCount currentRunners name < max_available rt"
    by simp
  have "calls_creating name (calls R) = [] \<and> checks_for name (unawaited R) = []"
    using assms(1)
  proof (cases rule: scaleUp_cases)
    case (rejected e)
    from front_no_provisioning [OF rejected(1)] show ?thesis by (simp add: checks_for_def)
  next
    case not_queued
    from front_no_provisioning [OF not_queued(1)] show ?thesis by (simp add: checks_for_def)
  next
    case (looped s0 c' rs evs)
    from assms(2) looped(3) provisioning_kind(2) [OF looped(4)]
    have "(ListRunners e rn, Runners currentRunners) \<in> set (calls s0)" by auto
    with front_entered(2) [OF looped(1)] have rs: "currentRunners = rs" by blast
    from ceiling have "\<not> below_ceiling rs (name, rt)" by (simp add: below_ceiling_def rs)
    from entry_at_ceiling [OF well_keyed_runnerTypes assms(3) this] well_keyed_runnerTypes
      loop_skips [OF looped(2)]
    have "calls_creating name (calls R) = calls_creating name (calls s0) \<and>
          checks_for name (unawaited R) = checks_for name (unawaited s0)"
      by (simp add: well_keyed_def)
    with front_no_provisioning [OF looped(1)] show ?thesis by (simp add: checks_for_def)
  qed
  with ceiling show ?thesis by (simp add: iteration_at_ceiling)
qed

text \<open>
  The scenario of the spec: 200 tracked \<open>linux.2xlarge\<close> runners, the ceiling of that
  runner type.
\<close>

theorem at_ceiling_is_skipped_witness:
  "scaleUp (world ''queued'' (tracked ''linux.2xlarge'' 200) all_busy) no_env ''aws:sqs''
       (message 1) start
     = (fst (queued_run 200 all_busy), Inr ()) \<and>
   (ListRunners (Some ''prod'') None, Runners (tracked ''linux.2xlarge'' 200))
     \<in> set (calls (fst (queued_run 200 all_busy))) \<and>
   (''linux.2xlarge'', linux_2xlarge) \<in> set runnerTypes \<and>
   max_available linux_2xlarge
     \<le> currentRunnerCount (tracked ''linux.2xlarge'' 200) ''linux.2xlarge'' \<and>
   calls_creating ''linux.2xlarge'' (calls (fst (queued_run 200 all_busy))) = [] \<and>
   checks_for ''linux.2xlarge'' (unawaited (fst (queued_run 200 all_busy))) = [] \<and>
   scaleUp_runnerType (world ''queued'' (tracked ''linux.2xlarge'' 200) all_busy) no_env
       (message 1) True 2 (tracked ''linux.2xlarge'' 200) (''linux.2xlarge'', linux_2xlarge)
       start
     = (start, Inr ())"
proof -
  have 1: "scaleUp (world ''queued'' (tracked ''linux.2xlarge'' 200) all_busy) no_env ''aws:sqs''
      (message 1) start = (fst (queued_run 200 all_busy), Inr ())"
    by (simp add: queued_run_trace queued_run_def [symmetric])
  have 2: "(ListRunners (Some ''prod'') None, Runners (tracked ''linux.2xlarge'' 200))
      \<in> set (calls (fst (queued_run 200 all_busy)))"
    by (simp add: queued_run_trace)
  have 4: "max_available linux_2xlarge
      \<le> currentRunnerCount (tracked ''linux.2xlarge'' 200) ''linux.2xlarge''"
    by (simp add: linux_2xlarge_def tracked_count)
  from at_ceiling_is_skipped [OF 1 2 linux_2xlarge_entry 4, of True 2 start]
    1 2 linux_2xlarge_entry 4
  show ?thesis by blast
qed

text \<open>
  C3. When no live runner carries the label of a runner type and is not offline, the
  promise of \<open>allRunnersBusy\<close> settles to \<open>true\<close> (\<open>every\<close> over the empty list). Below
  its ceiling the runner type is then admitted: the pass of the loop body drops that
  promise and goes on to ask for a registration token.
\<close>

theorem empty_matching_set_admits:
  assumes "ext_createGitHubClientForRunner w (calls s) (repositoryOwner payload)
             (repositoryName payload) lvl = Inr gc"
      and "ext_listGithubRunners w
             (calls s @
                [(CreateGitHubClientForRunner (repositoryOwner payload) (repositoryName payload)
                    lvl, Client gc)])
             gc (repositoryOwner payload) (repositoryName payload) lvl = Inr ghRunners"
      and "runnersWithLabel name ghRunners = []"
  shows "snd (allRunnersBusy w name (repositoryOwner payload) (repositoryName payload) lvl s)
           = Inr True \<and>
         (currentRunnerCount rs name < max_available rt \<longrightarrow>
            unawaited (fst (scaleUp_runnerType w env payload lvl c rs (name, rt) s))
              = unawaited s @
                  [(name,
                    Promise
                      [(CreateGitHubClientForRunner (repositoryOwner payload)
                          (repositoryName payload) lvl, Client gc),
                       (ListGithubRunners gc (repositoryOwner payload) (repositoryName payload)
                          lvl, GhRunners ghRunners),
                       (ConsoleInfo
                          (''Found 0 matching GitHub runners, ''
                             @ show_nat (length (filter busy ghRunners)) @ '' are busy''),
                        Done)]
                      (Inr True))] \<and>
            (\<exists>rep rest.
               calls (fst (scaleUp_runnerType w env payload lvl c rs (name, rt) s))
                 = calls s @ (tokenCall lvl c payload, rep) # rest))"
proof -
  have verdict:
    "snd (allRunnersBusy w name (repositoryOwner payload) (repositoryName payload) lvl s)
       = Inr True"
    using assms
    by (simp add: allRunnersBusy_def await_def createGitHubClientForRunner_def
        listGithubRunners_def console_info_def invoke_def resolve_def Let_def)
  have promise: "admission w name payload lvl s =
      Promise
        [(CreateGitHubClientForRunner (repositoryOwner payload) (repositoryName payload) lvl,
          Client gc),
         (ListGithubRunners gc (repositoryOwner payload) (repositoryName payload) lvl,
          GhRunners ghRunners),
         (ConsoleInfo
            (''Found 0 matching GitHub runners, ''
               @ show_nat (length (filter busy ghRunners)) @ '' are busy''), Done)]
        (Inr True)"
    using assms
    by (simp add: admission_def run_detached_def allRunnersBusy_def await_def
        createGitHubClientForRunner_def listGithubRunners_def console_info_def invoke_def
        resolve_def Let_def show_nat_eval)
  have admitted:
    "unawaited (fst (scaleUp_runnerType w env payload lvl c rs (name, rt) s))
       = unawaited s @ [(name, admission w name payload lvl s)] \<and>
     (\<exists>rep rest.
        calls (fst (scaleUp_runnerType w env payload lvl c rs (name, rt) s))
          = calls s @ (tokenCall lvl c payload, rep) # rest)"
    if below: "currentRunnerCount rs name < max_available rt"
  proof -
    obtain s' out where step: "scaleUp_runnerType w env payload lvl c rs (name, rt) s = (s', out)"
      by (cases "scaleUp_runnerType w env payload lvl c rs (name, rt) s")
    from below step have "(\<exists>e. calls s' = calls s @ [(tokenCall lvl c payload, Rejected e)]) \<or>
        (\<exists>token rep. calls s' = calls s @
           [(tokenCall lvl c payload, Token token), (createCall env lvl payload token name rt, rep)])"
      and "unawaited s' = unawaited s @ [(name, admission w name payload lvl s)]"
      by (cases rule: iteration_below_ceiling; simp)+
    with step show ?thesis by auto
  qed
  from verdict admitted promise show ?thesis by simp
qed

text \<open>
  The only live runner with the label \<open>linux.2xlarge\<close> is offline, the other one is idle
  and carries another label; no \<open>linux.2xlarge\<close> runner is tracked.
\<close>

theorem empty_matching_set_admits_witness:
  "ext_createGitHubClientForRunner (world ''queued'' [] none_matching) (calls start)
       (repositoryOwner (message 1)) (repositoryName (message 1)) True = Inr 3 \<and>
   ext_listGithubRunners (world ''queued'' [] none_matching)
       (calls start @
          [(CreateGitHubClientForRunner (repositoryOwner (message 1))
              (repositoryName (message 1)) True, Client 3)])
       3 (repositoryOwner (message 1)) (repositoryName (message 1)) True = Inr none_matching \<and>
   runnersWithLabel ''linux.2xlarge'' none_matching = [] \<and>
   currentRunnerCount [] ''linux.2xlarge'' < max_available linux_2xlarge \<and>
   snd (allRunnersBusy (world ''queued'' [] none_matching) ''linux.2xlarge'' ''acme'' ''widgets''
          True start) = Inr True \<and>
   unawaited (fst (scaleUp_runnerType (world ''queued'' [] none_matching) no_env (message 1)
       True 2 [] (''linux.2xlarge'', linux_2xlarge) start))
     = [(''linux.2xlarge'',
         Promise
           [(CreateGitHubClientForRunner ''acme'' ''widgets'' True, Client 3),
            (ListGithubRunners 3 ''acme'' ''widgets'' True, GhRunners none_matching),
            (ConsoleInfo ''Found 0 matching GitHub runners, 0 are busy'', Done)]
           (Inr True))] \<and>
   (\<exists>rep rest.
      calls (fst (scaleUp_runnerType (world ''queued'' [] none_matching) no_env (message 1)
          True 2 [] (''linux.2xlarge'', linux_2xlarge) start))
        = (CreateRegistrationTokenForOrg 2 ''acme'', rep) # rest)"
proof -
  have 1: "ext_createGitHubClientForRunner (world ''queued'' [] none_matching) (calls start)
       (repositoryOwner (message 1)) (repositoryName (message 1)) True = Inr 3"
    by (simp add: world_def)
  have 2: "ext_listGithubRunners (world ''queued'' [] none_matching)
       (calls start @
          [(CreateGitHubClientForRunner (repositoryOwner (message 1))
              (repositoryName (message 1)) True, Client 3)])
       3 (repositoryOwner (message 1)) (repositoryName (message 1)) True = Inr none_matching"
    by (simp add: world_def)
  have 3: "runnersWithLabel ''linux.2xlarge'' none_matching = []"
    by (simp add: runnersWithLabel_def none_matching_def)
  have 4: "currentRunnerCount [] ''linux.2xlarge'' < max_available linux_2xlarge"
    by (simp add: currentRunnerCount_def linux_2xlarge_def)
  from empty_matching_set_admits [OF 1 2 3, of "[]" linux_2xlarge no_env 2] 1 2 3 4
  show ?thesis
    by (simp add: message_def start_def tokenCall_def none_matching_def show_nat_eval)
qed

text \<open>
  C4. When the check run that \<open>checks.get\<close> returned has a status other than \<open>queued\<close>,
  \<open>scaleUp\<close> returns normally, has started no \<open>allRunnersBusy\<close>, and has listed neither
  the tracked nor the live runners, asked for no registration token and called no
  \<open>createRunner\<close>.
\<close>

theorem not_queued_is_a_noop:
  assumes "scaleUp w env eventSource payload start = (R, out)"
      and "(ChecksGet c i owner repo, CheckRunStatus st) \<in> set (calls R)"
      and "st \<noteq> ''queued''"
  shows "out = Inr () \<and> unawaited R = [] \<and>
         filter (\<lambda>ev. fleet_or_provisioning (fst ev)) (calls R) = []"
  using assms(1)
proof (cases rule: scaleUp_cases)
  case (rejected e)
  from front_status [OF rejected(1) assms(2)] assms(3) show ?thesis by simp
next
  case not_queued
  have "\<not> fleet_or_provisioning (fst ev)" if "ev \<in> set (calls R)" for ev
    using front_not_queued [OF not_queued(1)] that
    by (intro resolver_or_check_not_fleet) (simp add: list_all_iff)
  then have "filter (\<lambda>ev. fleet_or_provisioning (fst ev)) (calls R) = []"
    by (simp add: filter_empty_conv)
  with not_queued(2) front_no_provisioning [OF not_queued(1)] show ?thesis by simp
next
  case (looped s0 c' rs evs)
  from assms(2) looped(3) provisioning_kind(1) [OF looped(4)]
  have "(ChecksGet c i owner repo, CheckRunStatus st) \<in> set (calls s0)" by auto
  from front_status [OF looped(1) this] assms(3) show ?thesis by simp
qed

text \<open>A check run that is already completed, for a message without installation id.\<close>

theorem not_queued_is_a_noop_witness:
  "scaleUp (world ''completed'' (tracked ''linux.2xlarge'' 5) all_busy) no_env ''aws:sqs''
       (message 0) start
     = (fst (completed_run 0), Inr ()) \<and>
   (ChecksGet 2 7 ''acme'' ''widgets'', CheckRunStatus ''completed'')
     \<in> set (calls (fst (completed_run 0))) \<and>
   ''completed'' \<noteq> ''queued'' \<and>
   unawaited (fst (completed_run 0)) = [] \<and>
   filter (\<lambda>ev. fleet_or_provisioning (fst ev)) (calls (fst (completed_run 0))) = []"
proof -
  have 1: "scaleUp (world ''completed'' (tracked ''linux.2xlarge'' 5) all_busy) no_env ''aws:sqs''
       (message 0) start = (fst (completed_run 0), Inr ())"
    by (simp add: completed_run_trace completed_run_def [symmetric])
  have 2: "(ChecksGet 2 7 ''acme'' ''widgets'', CheckRunStatus ''completed'')
     \<in> set (calls (fst (completed_run 0)))"
    by (simp add: completed_run_trace)
  have 3: "''completed'' \<noteq> ''queued''" by simp
  from not_queued_is_a_noop [OF 1 2 3] 1 2 3 show ?thesis by blast
qed




text \<open>
  C6, as the code has it. The claim reads: a message whose \<open>installationId\<close> is 0 causes
  exactly one installation lookup. The lookup is the third call of \<open>scaleUp\<close>: with an
  event source other than \<open>aws:sqs\<close>, with the authentication as the app rejected, or
  with the client of the app rejected, \<open>scaleUp\<close> throws before it and no lookup is made.
\<close>

theorem installation_lookup_once_counterexample:
  "installationId (message 0) = 0 \<and>
   filter (\<lambda>ev. is_lookup (fst ev))
     (calls (fst (scaleUp (world ''queued'' (tracked ''linux.2xlarge'' 5) all_busy) no_env
        ''aws:sns'' (message 0) start))) = [] \<and>
   filter (\<lambda>ev. is_lookup (fst ev))
     (calls (fst (scaleUp
        (app_auth_rejecting (world ''queued'' (tracked ''linux.2xlarge'' 5) all_busy)) no_env
        ''aws:sqs'' (message 0) start))) = [] \<and>
   filter (\<lambda>ev. is_lookup (fst ev))
     (calls (fst (scaleUp
        (app_client_rejecting (world ''queued'' (tracked ''linux.2xlarge'' 5) all_busy)) no_env
        ''aws:sqs'' (message 0) start))) = []"
  unfolding no_lookup_traces by (simp add: message_def start_def)

text \<open>
  C6, amended. A message whose \<open>installationId\<close> is not 0 causes no installation lookup
  at all. A message whose \<open>installationId\<close> is 0, arriving from \<open>aws:sqs\<close> with the
  authentication as the app and the client built from its token succeeding, causes
  exactly one: the first three calls are that authentication, that client and the lookup
  (of the organisation under organisation-level runners, of the repository otherwise),
  so the lookup precedes the installation authentication and every call made with the
  installation client, and no later call is a lookup.
\<close>

theorem installation_lookup_once:
  assumes "scaleUp w env eventSource payload start = (R, out)"
  shows "(installationId payload \<noteq> 0 \<longrightarrow> filter (\<lambda>ev. is_lookup (fst ev)) (calls R) = []) \<and>
         (installationId payload = 0 \<and> eventSource = ''aws:sqs'' \<and>
          ext_createGithubAuth w [] None ''app'' (ghesApiUrl (GHES_URL env)) = Inr token \<and>
          ext_createOctoClient w
            [(CreateGithubAuth None ''app'' (ghesApiUrl (GHES_URL env)), Token token)]
            token (ghesApiUrl (GHES_URL env)) = Inr c \<longrightarrow>
          map fst (take 3 (calls R)) =
            [CreateGithubAuth None ''app'' (ghesApiUrl (GHES_URL env)),
             CreateOctoClient token (ghesApiUrl (GHES_URL env)),
             lookupCall (ext_yn w (ENABLE_ORGANIZATION_RUNNERS env) True) c payload] \<and>
          filter (\<lambda>ev. is_lookup (fst ev)) (drop 3 (calls R)) = [])"
proof -
  let ?url = "ghesApiUrl (GHES_URL env)"
  let ?first = "[CreateGithubAuth None ''app'' ?url, CreateOctoClient token ?url,
     lookupCall (ext_yn w (ENABLE_ORGANIZATION_RUNNERS env) True) c payload]"
  obtain s0 r evs where front: "scaleUp_front w env eventSource payload start = (s0, r)"
    and R: "calls R = calls s0 @ evs" and evs: "filter (\<lambda>ev. is_lookup (fst ev)) evs = []"
    using assms
  proof (cases rule: scaleUp_cases)
    case (rejected e)
    then show ?thesis by (intro that [of R "Inl e" "[]"]) simp_all
  next
    case not_queued
    then show ?thesis by (intro that [of R "Inr None" "[]"]) simp_all
  next
    case (looped s0 c' rs evs)
    from looped(1,3) provisioning_no_lookup [OF looped(4)] show ?thesis by (rule that)
  qed
  have none: "filter (\<lambda>ev. is_lookup (fst ev)) (calls R) = []" if "installationId payload \<noteq> 0"
    using front_no_lookup [OF front that] R evs by simp
  have one: "map fst (take 3 (calls R)) = ?first \<and>
      filter (\<lambda>ev. is_lookup (fst ev)) (drop 3 (calls R)) = []"
    if "installationId payload = 0" "eventSource = ''aws:sqs''"
      "ext_createGithubAuth w [] None ''app'' ?url = Inr token"
      "ext_createOctoClient w [(CreateGithubAuth None ''app'' ?url, Token token)] token ?url
         = Inr c"
  proof -
    from front_one_lookup [OF front [unfolded that(2)] that(1,3,4)]
    have first: "map fst (take 3 (calls s0)) = ?first"
      and later: "filter (\<lambda>ev. is_lookup (fst ev)) (drop 3 (calls s0)) = []" by simp_all
    from first have "length (take 3 (calls s0)) = 3" by (metis length_map length_Cons list.size(3) numeral_3_eq_3)
    then have "3 \<le> length (calls s0)" by simp
    with first later R evs show ?thesis by simp
  qed
  from none one show ?thesis by blast
qed

text \<open>A completed check run, for a message with installation id 1 and for one with 0.\<close>

theorem installation_lookup_once_witness:
  "(scaleUp (world ''completed'' (tracked ''linux.2xlarge'' 5) all_busy) no_env ''aws:sqs''
        (message 1) start
      = (fst (completed_run 1), Inr ()) \<and>
    installationId (message 1) \<noteq> 0 \<and>
    filter (\<lambda>ev. is_lookup (fst ev)) (calls (fst (completed_run 1))) = []) \<and>
   (scaleUp (world ''completed'' (tracked ''linux.2xlarge'' 5) all_busy) no_env ''aws:sqs''
        (message 0) start
      = (fst (completed_run 0), Inr ()) \<and>
    installationId (message 0) = 0 \<and>
    ext_createGithubAuth (world ''completed'' (tracked ''linux.2xlarge'' 5) all_busy) [] None
        ''app'' (ghesApiUrl (GHES_URL no_env)) = Inr ''jwt'' \<and>
    ext_createOctoClient (world ''completed'' (tracked ''linux.2xlarge'' 5) all_busy)
        [(CreateGithubAuth None ''app'' (ghesApiUrl (GHES_URL no_env)), Token ''jwt'')]
        ''jwt'' (ghesApiUrl (GHES_URL no_env)) = Inr 1 \<and>
    map fst (take 3 (calls (fst (completed_run 0)))) =
      [CreateGithubAuth None ''app'' [], CreateOctoClient ''jwt'' [],
       GetOrgInstallation 1 ''acme''] \<and>
    filter (\<lambda>ev. is_lookup (fst ev)) (drop 3 (calls (fst (completed_run 0)))) = [])"
proof -
  let ?w = "world ''completed'' (tracked ''linux.2xlarge'' 5) all_busy"
  have 1: "scaleUp ?w no_env ''aws:sqs'' (message 1) start = (fst (completed_run 1), Inr ())"
    by (simp add: completed_run_trace completed_run_def [symmetric])
  have 2: "installationId (message 1) \<noteq> 0" by (simp add: message_def)
  have 3: "scaleUp ?w no_env ''aws:sqs'' (message 0) start = (fst (completed_run 0), Inr ())"
    by (simp add: completed_run_trace completed_run_def [symmetric])
  have 4: "installationId (message 0) = 0" by (simp add: message_def)
  have 5: "ext_createGithubAuth ?w [] None ''app'' (ghesApiUrl (GHES_URL no_env)) = Inr ''jwt''"
    by (simp add: world_def)
  have 6: "ext_createOctoClient ?w
        [(CreateGithubAuth None ''app'' (ghesApiUrl (GHES_URL no_env)), Token ''jwt'')]
        ''jwt'' (ghesApiUrl (GHES_URL no_env)) = Inr 1"
    by (simp add: world_def)
  have url: "ghesApiUrl (GHES_URL no_env) = []"
    by (simp add: ghesApiUrl_def truthy_def no_env_def)
  have lookup: "lookupCall (ext_yn ?w (ENABLE_ORGANIZATION_RUNNERS no_env) True) 1 (message 0)
      = GetOrgInstallation 1 ''acme''"
    by (simp add: lookupCall_def world_def no_env_def yn_demo_def message_def)
  from installation_lookup_once [OF 1, of "''jwt''" 1] 2
  have a: "filter (\<lambda>ev. is_lookup (fst ev)) (calls (fst (completed_run 1))) = []" by blast
  from installation_lookup_once [OF 3, of "''jwt''" 1] 4 5 6
  have b: "map fst (take 3 (calls (fst (completed_run 0)))) =
      [CreateGithubAuth None ''app'' [], CreateOctoClient ''jwt'' [],
       GetOrgInstallation 1 ''acme''] \<and>
    filter (\<lambda>ev. is_lookup (fst ev)) (drop 3 (calls (fst (completed_run 0)))) = []"
    unfolding url lookup by blast
  from a b 1 2 3 4 5 6 show ?thesis by blast
qed

text \<open>
  C7, as the code has it. The claim reads: for every runner type, extra-label setting and
  runner-group setting, the composed configuration string gives them back when parsed.
  The composition is plain concatenation, so a setting that holds a space can pass for
  another option: the extra labels \<open>gpu --runnergroup ci\<close> without a runner group compose
  the very string that the extra labels \<open>gpu\<close> with the runner group \<open>ci\<close> compose, and
  no reader can tell the two apart.
\<close>

theorem runnerConfig_roundtrip_counterexample:
  "runnerConfig True None ''acme'' ''widgets'' ''REG'' ''linux.2xlarge''
       (Some ''gpu --runnergroup ci'') None
     = runnerConfig True None ''acme'' ''widgets'' ''REG'' ''linux.2xlarge''
         (Some ''gpu'') (Some ''ci'') \<and>
   parse_runnerConfig
       (runnerConfig True None ''acme'' ''widgets'' ''REG'' ''linux.2xlarge''
          (Some ''gpu --runnergroup ci'') None)
     = Some (''linux.2xlarge'', Some ''gpu'', Some ''ci'') \<and>
   parse_runnerConfig
       (runnerConfig True None ''acme'' ''widgets'' ''REG'' ''linux.2xlarge''
          (Some ''gpu --runnergroup ci'') None)
     \<noteq> Some (''linux.2xlarge'', Some ''gpu --runnergroup ci'', None)"
  by (simp add: runnerConfig_def labelsArgument_def runnerGroupArgument_def configBaseUrl_def
      truthy_def parse_runnerConfig_def read_labels_def)

text \<open>
  C7, amended. For a runner type without space or comma (as the four of the table are)
  and extra-label and runner-group settings without space, reading the composed string
  back gives the runner type, the extra labels exactly when they are configured and, for
  an organisation-level configuration, the runner group exactly when it is configured. A
  repository-level configuration carries no runner group. This holds whatever the URL,
  the owner, the repository and the token are.
\<close>

theorem runnerConfig_roundtrip:
  assumes "CHR '' '' \<notin> set runnerType" and "CHR '','' \<notin> set runnerType"
      and "spaceless runnerExtraLabels" and "spaceless runnerGroup"
  shows "parse_runnerConfig
           (runnerConfig enableOrgLevel ghesBaseUrl owner repo token runnerType
              runnerExtraLabels runnerGroup)
         = Some (runnerType, runnerExtraLabels, if enableOrgLevel then runnerGroup else None)"
proof -
  let ?config = "runnerConfig enableOrgLevel ghesBaseUrl owner repo token runnerType
      runnerExtraLabels runnerGroup"
  let ?g = "if enableOrgLevel then runnerGroup else None"
  let ?l = "label_list runnerType runnerExtraLabels"
  from config_shape obtain p where
    shape: "?config =
         p @ CHR '' '' # ''--labels'' @ CHR '' '' # ?l @
           (case ?g of None \<Rightarrow> []
            | Some x \<Rightarrow> CHR '' '' # ''--runnergroup'' @ CHR '' '' # x)"
    by blast
  have l: "CHR '' '' \<notin> set ?l"
    using assms(1,3) by (rule label_list_spaceless)
  show ?thesis
  proof (cases ?g)
    case None
    have "split_on CHR '' '' ?config = split_on CHR '' '' p @ [''--labels'', ?l]"
      unfolding shape None using l
      by (simp add: split_on_sep split_on_word_sep split_on_word)
    then show ?thesis
      using None assms(2) by (simp add: parse_runnerConfig_def read_label_list)
  next
    case (Some x)
    with assms(4) have x: "CHR '' '' \<notin> set x"
      by (auto simp: spaceless_def split: if_splits)
    have "split_on CHR '' '' ?config
            = split_on CHR '' '' p @ [''--labels'', ?l, ''--runnergroup'', x]"
      unfolding shape Some using l x
      by (simp add: split_on_sep split_on_word_sep [of _ ?l] split_on_word)
    then show ?thesis
      using Some assms(2) by (simp add: parse_runnerConfig_def read_label_list)
  qed
qed

text \<open>Two extra labels and a runner group, for an organisation on an enterprise server.\<close>

theorem runnerConfig_roundtrip_witness:
  "CHR '' '' \<notin> set ''linux.2xlarge'' \<and> CHR '','' \<notin> set ''linux.2xlarge'' \<and>
   spaceless (Some ''gpu,large'') \<and> spaceless (Some ''ci'') \<and>
   parse_runnerConfig
       (runnerConfig True (Some ''https://ghe.example.com'') ''acme'' ''widgets'' ''REG''
          ''linux.2xlarge'' (Some ''gpu,large'') (Some ''ci''))
     = Some (''linux.2xlarge'', Some ''gpu,large'', Some ''ci'')"
proof -
  have 1: "CHR '' '' \<notin> set ''linux.2xlarge''" and 2: "CHR '','' \<notin> set ''linux.2xlarge''"
    by simp_all
  have 3: "spaceless (Some ''gpu,large'')" and 4: "spaceless (Some ''ci'')"
    by (simp_all add: spaceless_def)
  from runnerConfig_roundtrip [OF 1 2 3 4, of True "Some ''https://ghe.example.com''"
      "''acme''" "''widgets''" "''REG''"] 1 2 3 4
  show ?thesis by simp
qed

text \<open>
  C8. An event source other than \<open>aws:sqs\<close> makes \<open>scaleUp\<close> throw
  \<open>Error('Cannot handle non-SQS events!')\<close> at once: no outbound call has been made, no
  promise has been created, and the run is as it started.
\<close>

theorem non_sqs_event_fails_at_once:
  assumes "eventSource \<noteq> ''aws:sqs''"
  shows "scaleUp w env eventSource payload start
           = (start, Inl (Error ''Cannot handle non-SQS events!''))"
  using assms by (simp add: scaleUp_def throw_def)

theorem non_sqs_event_fails_at_once_witness:
  "''aws:sns'' \<noteq> ''aws:sqs'' \<and>
   scaleUp (world ''queued'' (tracked ''linux.2xlarge'' 5) all_busy) no_env ''aws:sns''
       (message 1) start
     = (start, Inl (Error ''Cannot handle non-SQS events!'')) \<and>
   calls start = [] \<and> unawaited start = []"
proof -
  have 1: "''aws:sns'' \<noteq> ''aws:sqs''" by simp
  from non_sqs_event_fails_at_once [OF 1] 1 show ?thesis by (simp add: start_def)
qed

text \<open>
  C9, as the code has it. The claim reads: in every invocation with the check run queued,
  every runner type below its ceiling gets one registration-token call and one
  \<open>createRunner\<close> call. A rejected call ends the loop: here \<open>createRunner\<close> is rejected
  for \<open>linux.2xlarge\<close>, the first runner type, and \<open>win.2xlarge\<close>, with no tracked runner
  and a ceiling of 50, gets neither call.
\<close>

theorem below_ceiling_always_provisions_counterexample:
  "(ChecksGet 2 7 ''acme'' ''widgets'', CheckRunStatus ''queued'')
     \<in> set (calls (fst (scaleUp
           (runner_rejecting (world ''queued'' (tracked ''linux.2xlarge'' 5) one_idle)) no_env
           ''aws:sqs'' (message 1) start))) \<and>
   (ListRunners (Some ''prod'') None, Runners (tracked ''linux.2xlarge'' 5))
     \<in> set (calls (fst (scaleUp
           (runner_rejecting (world ''queued'' (tracked ''linux.2xlarge'' 5) one_idle)) no_env
           ''aws:sqs'' (message 1) start))) \<and>
   (''win.2xlarge'', win_2xlarge) \<in> set runnerTypes \<and>
   currentRunnerCount (tracked ''linux.2xlarge'' 5) ''win.2xlarge'' < max_available win_2xlarge \<and>
   calls_creating ''win.2xlarge''
     (calls (fst (scaleUp
        (runner_rejecting (world ''queued'' (tracked ''linux.2xlarge'' 5) one_idle)) no_env
        ''aws:sqs'' (message 1) start))) = [] \<and>
   token_calls
     (calls (fst (scaleUp
        (runner_rejecting (world ''queued'' (tracked ''linux.2xlarge'' 5) one_idle)) no_env
        ''aws:sqs'' (message 1) start)))
     = [(CreateRegistrationTokenForOrg 2 ''acme'', Token ''REG'')]"
  unfolding runner_rejected_trace
  by (simp add: runnerTypes_def win_2xlarge_def tracked_count calls_creating_def
      token_calls_def linux_2xlarge_def)

text \<open>
  C9, amended. In an invocation that ends without a rejected call, with the check run
  queued: for every runner type of the table whose tracked runners are fewer than its
  \<open>max_available\<close>, the calls hold one registration-token call followed at once by the
  one \<open>createRunner\<close> call for that runner type, and one \<open>allRunnersBusy\<close> promise was
  dropped for it. Nothing is assumed about that promise or about the live runners: line
  117 tests the promise itself. Over the whole invocation there are as many token calls,
  and as many \<open>createRunner\<close> calls, as runner types below their ceiling.
\<close>

theorem below_ceiling_always_provisions:
  assumes "scaleUp w env eventSource payload start = (R, Inr ())"
      and "(ChecksGet c i owner repo, CheckRunStatus ''queued'') \<in> set (calls R)"
      and "(ListRunners e rn, Runners currentRunners) \<in> set (calls R)"
      and "(name, rt) \<in> set runnerTypes"
      and "currentRunnerCount currentRunners name < max_available rt"
  shows "(\<exists>pre post token p.
            calls R = pre @
              [(tokenCall (ext_yn w (ENABLE_ORGANIZATION_RUNNERS env) True) c payload,
                Token token),
               (createCall env (ext_yn w (ENABLE_ORGANIZATION_RUNNERS env) True) payload token
                  name rt, Done)] @ post \<and>
            calls_creating name pre = [] \<and> calls_creating name post = [] \<and>
            checks_for name (unawaited R) = [(name, p)]) \<and>
         length (token_calls (calls R))
           = length (filter (below_ceiling currentRunners) runnerTypes) \<and>
         length (create_calls (calls R))
           = length (filter (below_ceiling currentRunners) runnerTypes)"
proof -
  from assms(5) have "below_ceiling currentRunners (name, rt)"
    by (simp add: below_ceiling_def)
  from invocation_provisions(4) [OF assms(1-3) assms(4) this]
    invocation_provisions(1,2) [OF assms(1-3)]
  show ?thesis by blast
qed

text \<open>
  Five tracked \<open>linux.2xlarge\<close> runners and three live ones, one of them idle: the promise
  for \<open>linux.2xlarge\<close> settles to \<open>false\<close>, and each of the four runner types gets its
  token and its runner.
\<close>

theorem below_ceiling_always_provisions_witness:
  "scaleUp (world ''queued'' (tracked ''linux.2xlarge'' 5) one_idle) no_env ''aws:sqs''
       (message 1) start
     = (fst (queued_run 5 one_idle), Inr ()) \<and>
   (ChecksGet 2 7 ''acme'' ''widgets'', CheckRunStatus ''queued'')
     \<in> set (calls (fst (queued_run 5 one_idle))) \<and>
   (ListRunners (Some ''prod'') None, Runners (tracked ''linux.2xlarge'' 5))
     \<in> set (calls (fst (queued_run 5 one_idle))) \<and>
   (''linux.2xlarge'', linux_2xlarge) \<in> set runnerTypes \<and>
   currentRunnerCount (tracked ''linux.2xlarge'' 5) ''linux.2xlarge''
     < max_available linux_2xlarge \<and>
   (\<exists>pre post token p.
      calls (fst (queued_run 5 one_idle)) = pre @
        [(CreateRegistrationTokenForOrg 2 ''acme'', Token token),
         (createCall no_env True (message 1) token ''linux.2xlarge'' linux_2xlarge, Done)]
        @ post \<and>
      calls_creating ''linux.2xlarge'' pre = [] \<and>
      calls_creating ''linux.2xlarge'' post = [] \<and>
      checks_for ''linux.2xlarge'' (unawaited (fst (queued_run 5 one_idle)))
        = [(''linux.2xlarge'', p)]) \<and>
   length (token_calls (calls (fst (queued_run 5 one_idle)))) = 4 \<and>
   length (create_calls (calls (fst (queued_run 5 one_idle)))) = 4"
proof -
  let ?w = "world ''queued'' (tracked ''linux.2xlarge'' 5) one_idle"
  have 1: "scaleUp ?w no_env ''aws:sqs'' (message 1) start = (fst (queued_run 5 one_idle), Inr ())"
    by (simp add: queued_run_trace queued_run_def [symmetric])
  have 2: "(ChecksGet 2 7 ''acme'' ''widgets'', CheckRunStatus ''queued'')
     \<in> set (calls (fst (queued_run 5 one_idle)))"
    by (simp add: queued_run_trace)
  have 3: "(ListRunners (Some ''prod'') None, Runners (tracked ''linux.2xlarge'' 5))
     \<in> set (calls (fst (queued_run 5 one_idle)))"
    by (simp add: queued_run_trace)
  have 5: "currentRunnerCount (tracked ''linux.2xlarge'' 5) ''linux.2xlarge''
     < max_available linux_2xlarge"
    by (simp add: tracked_count linux_2xlarge_def)
  have lvl: "ext_yn ?w (ENABLE_ORGANIZATION_RUNNERS no_env) True = True"
    by (simp add: world_def no_env_def yn_demo_def)
  have token: "tokenCall True 2 (message 1) = CreateRegistrationTokenForOrg 2 ''acme''"
    by (simp add: tokenCall_def message_def)
  have four: "length (filter (below_ceiling (tracked ''linux.2xlarge'' 5)) runnerTypes) = 4"
    by (simp add: runnerTypes_def below_ceiling_def tracked_count)
  from below_ceiling_always_provisions [OF 1 2 3 linux_2xlarge_entry 5]
    1 2 3 linux_2xlarge_entry 5
  show ?thesis unfolding lvl token four by blast
qed

text \<open>
  C10. \<open>scaleUp\<close> never reads \<open>payload.eventType\<close>: with the same collaborators,
  environment and event source, a message and the same message with any other
  \<open>eventType\<close> give the same calls with the same arguments and replies, the same
  promises and the same outcome, from every state of the run.
\<close>

theorem eventType_is_never_read:
  "scaleUp w env eventSource (payload\<lparr>eventType := t\<rparr>) = scaleUp w env eventSource payload"
proof -
  have body: "scaleUp_runnerType w env (payload\<lparr>eventType := t\<rparr>) lvl c rs
      = scaleUp_runnerType w env payload lvl c rs" for lvl c rs
    by (rule ext) (simp add: scaleUp_runnerType_def split: prod.splits cong: if_cong)
  show ?thesis
    by (simp add: scaleUp_def body Let_def cong: if_cong)
qed

theorem eventType_is_never_read_witness:
  "scaleUp (world ''queued'' (tracked ''linux.2xlarge'' 5) one_idle) no_env ''aws:sqs''
       ((message 1)\<lparr>eventType := ''workflow_job''\<rparr>) start
     = queued_run 5 one_idle"
  using eventType_is_never_read
    [where w = "world ''queued'' (tracked ''linux.2xlarge'' 5) one_idle" and env = no_env
       and eventSource = "''aws:sqs''" and payload = "message 1" and t = "''workflow_job''"]
  by (simp add: queued_run_def)

end
